theory Spec2Isabelle
  imports Main "HOL-Library.Word" "HOL-Library.Sublist"
begin

unbundle bit_operations_syntax

section \<open>JavaScript values\<close>

text \<open>
  The request body, the cached results and the response envelopes are plain JSON-like
  JavaScript values.  Strings are sequences of 8-bit characters (the UTF-8 bytes of the
  text); \<open>trim\<close> and \<open>toLowerCase\<close> below are the ASCII parts of the
  JavaScript built-ins.  Numbers are the integral JSON numbers.  An object is its list of
  own properties in insertion order.
\<close>

datatype jsval =
    JUndefined
  | JNull
  | JBool bool
  | JNum int
  | JStr string
  | JArr "jsval list"
  | JObj "(string \<times> jsval) list"

datatype js_error = TypeError | Error

text \<open>ToBoolean: what \<open>!x\<close> and \<open>if (x)\<close> test.\<close>

fun truthy :: "jsval \<Rightarrow> bool" where
  "truthy JUndefined = False"
| "truthy JNull = False"
| "truthy (JBool b) = b"
| "truthy (JNum n) = (n \<noteq> 0)"
| "truthy (JStr s) = (s \<noteq> [])"
| "truthy (JArr xs) = True"
| "truthy (JObj ps) = True"

text \<open>
  Property read \<open>v.name\<close> for a name that no prototype defines (such as \<open>id\<close>):
  it throws on \<open>undefined\<close> and \<open>null\<close>, finds an own property of an
  object, and is \<open>undefined\<close> on every other value.
\<close>

fun js_get :: "jsval \<Rightarrow> string \<Rightarrow> js_error + jsval" where
  "js_get JUndefined name = Inl TypeError"
| "js_get JNull name = Inl TypeError"
| "js_get (JObj ps) name = Inr (case map_of ps name of None \<Rightarrow> JUndefined | Some v \<Rightarrow> v)"
| "js_get v name = Inr JUndefined"

text \<open>Decimal digits of a natural number (array indices, JSON numbers).\<close>

definition hexdigit :: "nat \<Rightarrow> char" where
  "hexdigit n = ''0123456789abcdef'' ! (n mod 16)"

fun digits :: "nat \<Rightarrow> string" where
  "digits n = (if n < 10 then [hexdigit n] else digits (n div 10) @ [hexdigit (n mod 10)])"

declare digits.simps [simp del]

text \<open>Object literal \<open>{...v, name: x}\<close>: the spread copies the own enumerable
  properties of \<open>v\<close> (those of an object; the indexed elements of an array or a string;
  none of \<open>undefined\<close>, \<open>null\<close>, a boolean or a number); a later property of the same
  name replaces the value and keeps the position.\<close>

fun js_spread :: "jsval \<Rightarrow> (string \<times> jsval) list" where
  "js_spread (JObj ps) = ps"
| "js_spread (JArr xs) = map (\<lambda>(i, x). (digits i, x)) (enumerate 0 xs)"
| "js_spread (JStr s) = map (\<lambda>(i, c). (digits i, JStr [c])) (enumerate 0 s)"
| "js_spread v = []"

fun obj_put :: "(string \<times> jsval) list \<Rightarrow> string \<Rightarrow> jsval \<Rightarrow> (string \<times> jsval) list" where
  "obj_put [] k v = [(k, v)]"
| "obj_put ((k', v') # ps) k v = (if k' = k then (k, v) # ps else (k', v') # obj_put ps k v)"

subsection \<open>String methods\<close>

definition is_ws :: "char \<Rightarrow> bool" where
  "is_ws c = (c \<in> set [CHR 0x20, CHR 0x09, CHR 0x0A, CHR 0x0B, CHR 0x0C, CHR 0x0D])"

definition trim :: "string \<Rightarrow> string" where
  "trim s = rev (dropWhile is_ws (rev (dropWhile is_ws s)))"

definition lower_char :: "char \<Rightarrow> char" where
  "lower_char c =
     (if (65::nat) \<le> of_char c \<and> of_char c \<le> (90::nat) then char_of (of_char c + (32::nat)) else c)"

definition toLowerCase :: "string \<Rightarrow> string" where
  "toLowerCase s = map lower_char s"

text \<open>\<open>v.trim()\<close>: only a string has the method.\<close>

fun js_trim :: "jsval \<Rightarrow> js_error + string" where
  "js_trim (JStr s) = Inr (trim s)"
| "js_trim v = Inl TypeError"

subsection \<open>JSON.stringify\<close>

definition quote_char :: "char \<Rightarrow> string" where
  "quote_char c =
     (if c = CHR 0x22 then [CHR 0x5C, CHR 0x22]
      else if c = CHR 0x5C then [CHR 0x5C, CHR 0x5C]
      else if c = CHR 0x08 then [CHR 0x5C, CHR ''b'']
      else if c = CHR 0x09 then [CHR 0x5C, CHR ''t'']
      else if c = CHR 0x0A then [CHR 0x5C, CHR ''n'']
      else if c = CHR 0x0C then [CHR 0x5C, CHR ''f'']
      else if c = CHR 0x0D then [CHR 0x5C, CHR ''r'']
      else if (of_char c :: nat) < 32
        then [CHR 0x5C, CHR ''u'', CHR ''0'', CHR ''0'',
              hexdigit (of_char c div 16), hexdigit (of_char c)]
      else [c])"

definition quote :: "string \<Rightarrow> string" where
  "quote s = [CHR 0x22] @ concat (map quote_char s) @ [CHR 0x22]"

fun join :: "string list \<Rightarrow> string" where
  "join [] = []"
| "join [x] = x"
| "join (x # y # ys) = x @ '','' @ join (y # ys)"

definition show_int :: "int \<Rightarrow> string" where
  "show_int i = (if i < 0 then ''-'' @ digits (nat (- i)) else digits (nat i))"

fun ser :: "jsval \<Rightarrow> string option"
  and ser_elems :: "jsval list \<Rightarrow> string list"
  and ser_props :: "(string \<times> jsval) list \<Rightarrow> string list" where
  "ser JUndefined = None"
| "ser JNull = Some ''null''"
| "ser (JBool b) = Some (if b then ''true'' else ''false'')"
| "ser (JNum n) = Some (show_int n)"
| "ser (JStr s) = Some (quote s)"
| "ser (JArr xs) = Some (''['' @ join (ser_elems xs) @ '']'')"
| "ser (JObj ps) = Some (''{'' @ join (ser_props ps) @ ''}'')"
| "ser_elems [] = []"
| "ser_elems (x # xs) = (case ser x of None \<Rightarrow> ''null'' | Some t \<Rightarrow> t) # ser_elems xs"
| "ser_props [] = []"
| "ser_props ((k, v) # ps) =
     (case ser v of None \<Rightarrow> ser_props ps | Some t \<Rightarrow> (quote k @ '':'' @ t) # ser_props ps)"

text \<open>\<open>JSON.stringify\<close> of an object literal: always a string.\<close>

definition stringify_object :: "(string \<times> jsval) list \<Rightarrow> string" where
  "stringify_object ps = ''{'' @ join (ser_props ps) @ ''}''"


section \<open>SHA-256\<close>

text \<open>
  \<open>crypto.createHash("sha256").update(s).digest("hex")\<close>: the SHA-256 digest
  (FIPS 180-4) of the bytes of \<open>s\<close>, as 64 lower-case hexadecimal digits.
\<close>

type_synonym w32 = "32 word"

definition K256 :: "w32 list" where
  "K256 = concat
    [[0x428a2f98, 0x71374491, 0xb5c0fbcf, 0xe9b5dba5, 0x3956c25b, 0x59f111f1, 0x923f82a4, 0xab1c5ed5],
     [0xd807aa98, 0x12835b01, 0x243185be, 0x550c7dc3, 0x72be5d74, 0x80deb1fe, 0x9bdc06a7, 0xc19bf174],
     [0xe49b69c1, 0xefbe4786, 0x0fc19dc6, 0x240ca1cc, 0x2de92c6f, 0x4a7484aa, 0x5cb0a9dc, 0x76f988da],
     [0x983e5152, 0xa831c66d, 0xb00327c8, 0xbf597fc7, 0xc6e00bf3, 0xd5a79147, 0x06ca6351, 0x14292967],
     [0x27b70a85, 0x2e1b2138, 0x4d2c6dfc, 0x53380d13, 0x650a7354, 0x766a0abb, 0x81c2c92e, 0x92722c85],
     [0xa2bfe8a1, 0xa81a664b, 0xc24b8b70, 0xc76c51a3, 0xd192e819, 0xd6990624, 0xf40e3585, 0x106aa070],
     [0x19a4c116, 0x1e376c08, 0x2748774c, 0x34b0bcb5, 0x391c0cb3, 0x4ed8aa4a, 0x5b9cca4f, 0x682e6ff3],
     [0x748f82ee, 0x78a5636f, 0x84c87814, 0x8cc70208, 0x90befffa, 0xa4506ceb, 0xbef9a3f7, 0xc67178f2]]"

record sha_state =
  va :: w32
  vb :: w32
  vc :: w32
  vd :: w32
  ve :: w32
  vf :: w32
  vg :: w32
  vh :: w32

definition H256 :: sha_state where
  "H256 = \<lparr>va = 0x6a09e667, vb = 0xbb67ae85, vc = 0x3c6ef372, vd = 0xa54ff53a,
            ve = 0x510e527f, vf = 0x9b05688c, vg = 0x1f83d9ab, vh = 0x5be0cd19\<rparr>"

definition rotr :: "nat \<Rightarrow> w32 \<Rightarrow> w32" where
  "rotr n x = drop_bit n x OR push_bit (32 - n) x"

definition Ch :: "w32 \<Rightarrow> w32 \<Rightarrow> w32 \<Rightarrow> w32" where
  "Ch x y z = (x AND y) XOR (NOT x AND z)"

definition Maj :: "w32 \<Rightarrow> w32 \<Rightarrow> w32 \<Rightarrow> w32" where
  "Maj x y z = (x AND y) XOR (x AND z) XOR (y AND z)"

definition Sigma0 :: "w32 \<Rightarrow> w32" where
  "Sigma0 x = rotr 2 x XOR rotr 13 x XOR rotr 22 x"

definition Sigma1 :: "w32 \<Rightarrow> w32" where
  "Sigma1 x = rotr 6 x XOR rotr 11 x XOR rotr 25 x"

definition sigma0 :: "w32 \<Rightarrow> w32" where
  "sigma0 x = rotr 7 x XOR rotr 18 x XOR drop_bit 3 x"

definition sigma1 :: "w32 \<Rightarrow> w32" where
  "sigma1 x = rotr 17 x XOR rotr 19 x XOR drop_bit 10 x"

definition round_step :: "w32 \<Rightarrow> w32 \<Rightarrow> sha_state \<Rightarrow> sha_state" where
  "round_step k w s =
     (let t1 = vh s + Sigma1 (ve s) + Ch (ve s) (vf s) (vg s) + k + w;
          t2 = Sigma0 (va s) + Maj (va s) (vb s) (vc s)
      in \<lparr>va = t1 + t2, vb = va s, vc = vb s, vd = vc s,
          ve = vd s + t1, vf = ve s, vg = vf s, vh = vg s\<rparr>)"

text \<open>The window holds the schedule words W[t], ..., W[t+15]; round t consumes W[t] and
  appends W[t+16].\<close>

fun rounds :: "w32 list \<Rightarrow> w32 list \<Rightarrow> sha_state \<Rightarrow> sha_state" where
  "rounds [] win s = s"
| "rounds (k # ks) win s =
     rounds ks (tl win @ [sigma1 (win ! 14) + win ! 9 + sigma0 (win ! 1) + win ! 0])
       (round_step k (win ! 0) s)"

definition compress :: "sha_state \<Rightarrow> w32 list \<Rightarrow> sha_state" where
  "compress s block =
     (let r = rounds K256 block s
      in \<lparr>va = va s + va r, vb = vb s + vb r, vc = vc s + vc r, vd = vd s + vd r,
          ve = ve s + ve r, vf = vf s + vf r, vg = vg s + vg r, vh = vh s + vh r\<rparr>)"

fun be32 :: "w32 list \<Rightarrow> w32 list" where
  "be32 (a # b # c # d # bs) =
     (push_bit 24 a OR push_bit 16 b OR push_bit 8 c OR d) # be32 bs"
| "be32 bs = []"

text \<open>Padding: the byte 0x80, zero bytes up to 56 modulo 64, and the bit length as a
  64-bit big-endian integer.\<close>

definition pad :: "string \<Rightarrow> w32 list" where
  "pad m =
     map of_char m @ [0x80] @ replicate ((119 - length m mod 64) mod 64) 0 @
     (let n = (of_nat (8 * length m) :: 64 word)
      in map (\<lambda>i. ucast (drop_bit i n AND 0xff)) [56, 48, 40, 32, 24, 16, 8, 0])"

fun absorb :: "w32 list \<Rightarrow> sha_state \<Rightarrow> sha_state" where
  "absorb ws s =
     (if length ws < 16 then s else absorb (drop 16 ws) (compress s (take 16 ws)))"

definition hex32 :: "w32 \<Rightarrow> string" where
  "hex32 w = map (\<lambda>i. hexdigit (unat (drop_bit i w AND 0xf))) [28, 24, 20, 16, 12, 8, 4, 0]"

definition sha256_hex :: "string \<Rightarrow> string" where
  "sha256_hex m =
     (let s = absorb (be32 (pad m)) H256
      in concat (map hex32 [va s, vb s, vc s, vd s, ve s, vf s, vg s, vh s]))"

section \<open>Key derivation\<close>

text \<open>
  \<open>generateIdentityHash\<close> of verifyWithSupabase.js and of index.js (the same text in
  both files): \<open>issuer.trim().toLowerCase()\<close> and \<open>credential.trim()\<close>, so a value
  that is not a string throws.
\<close>

definition generateIdentityHash :: "jsval \<Rightarrow> jsval \<Rightarrow> js_error + string" where
  "generateIdentityHash issuer credential =
     (case js_trim issuer of
        Inl e \<Rightarrow> Inl e
      | Inr i \<Rightarrow>
          (case js_trim credential of
             Inl e \<Rightarrow> Inl e
           | Inr c \<Rightarrow>
               Inr (sha256_hex (stringify_object
                      [(''issuer'', JStr (toLowerCase i)), (''credential'', JStr c)]))))"

text \<open>
  \<open>generateRequestHash\<close>, the middleware of the core node: it answers 400 when a field
  is falsy and otherwise hashes \<open>JSON.stringify({ issuer, credential })\<close> of the fields
  as received.
\<close>

definition generateRequestHash :: "jsval \<Rightarrow> jsval \<Rightarrow> (nat \<times> jsval) + string" where
  "generateRequestHash issuer credential =
     (if \<not> truthy issuer \<or> \<not> truthy credential
      then Inl (400, JObj [(''error'', JStr ''Missing issuer or credential data'')])
      else Inr (sha256_hex (stringify_object
                  [(''issuer'', issuer), (''credential'', credential)])))"

text \<open>
  \<open>generateFingerprint\<close> of the persistence layer (supabaseClient.js): the payload is
  \<open>JSON.stringify({ issuer, credentialId: credential.id })\<close>.
\<close>

definition generateFingerprint :: "jsval \<Rightarrow> jsval \<Rightarrow> js_error + string" where
  "generateFingerprint issuer credential =
     (case js_get credential ''id'' of
        Inl e \<Rightarrow> Inl e
      | Inr cid \<Rightarrow>
          Inr (sha256_hex (stringify_object
                 [(''issuer'', issuer), (''credentialId'', cid)])))"


section \<open>The volatile cache\<close>

text \<open>
  Modelled from the spec: the \<open>LRUCache\<close> class of the lru-cache package, which the
  servers construct with \<open>{ max: 5000, ttl: CACHE_TTL, allowStale: false }\<close> and whose
  code is not part of the repository.  Section 4.2 of the specification: a bounded
  associative store with \<open>get\<close> and \<open>set\<close>; when an insertion would exceed the
  maximum entry count the least-recently-used entry is evicted (access on \<open>get\<close>
  counts as use, \<open>set\<close> of an existing key counts as use); an entry older than its
  time-to-live, measured from insertion, is treated as absent (lazy expiry), and is never
  returned.  \<open>has\<close> answers whether \<open>get\<close> would find the key and does not count
  as use.

  The entries are kept in order of use, least recently used first; each carries the time
  of its insertion.
\<close>

type_synonym 'v entry = "string \<times> 'v \<times> nat"

record 'v lru_cache =
  max_entries :: nat
  ttl_ms :: nat
  entries :: "'v entry list"

definition LRUCache :: "nat \<Rightarrow> nat \<Rightarrow> 'v lru_cache" where
  "LRUCache m t = \<lparr>max_entries = m, ttl_ms = t, entries = []\<rparr>"

definition is_stale :: "'v lru_cache \<Rightarrow> nat \<Rightarrow> nat \<Rightarrow> bool" where
  "is_stale c now start = (start + ttl_ms c < now)"

definition remove_key :: "string \<Rightarrow> 'v entry list \<Rightarrow> 'v entry list" where
  "remove_key k es = filter (\<lambda>e. fst e \<noteq> k) es"

definition cache_has :: "nat \<Rightarrow> string \<Rightarrow> 'v lru_cache \<Rightarrow> bool" where
  "cache_has now k c =
     (case map_of (entries c) k of
        None \<Rightarrow> False
      | Some (v, start) \<Rightarrow> \<not> is_stale c now start)"

definition cache_get :: "nat \<Rightarrow> string \<Rightarrow> 'v lru_cache \<Rightarrow> 'v option \<times> 'v lru_cache" where
  "cache_get now k c =
     (case map_of (entries c) k of
        None \<Rightarrow> (None, c)
      | Some (v, start) \<Rightarrow>
          if is_stale c now start
          then (None, c\<lparr>entries := remove_key k (entries c)\<rparr>)
          else (Some v, c\<lparr>entries := remove_key k (entries c) @ [(k, v, start)]\<rparr>))"

definition cache_set :: "nat \<Rightarrow> string \<Rightarrow> 'v \<Rightarrow> 'v lru_cache \<Rightarrow> 'v lru_cache" where
  "cache_set now k v c =
     (if map_of (entries c) k \<noteq> None
      then c\<lparr>entries := remove_key k (entries c) @ [(k, v, now)]\<rparr>
      else if max_entries c \<le> length (entries c)
      then c\<lparr>entries := tl (entries c) @ [(k, v, now)]\<rparr>
      else c\<lparr>entries := entries c @ [(k, v, now)]\<rparr>)"

definition cache_keys :: "'v lru_cache \<Rightarrow> string list" where
  "cache_keys c = map fst (entries c)"

text \<open>The states a cache built by \<open>LRUCache\<close> with a positive bound reaches.\<close>

definition cache_ok :: "'v lru_cache \<Rightarrow> bool" where
  "cache_ok c = (0 < max_entries c \<and> length (entries c) \<le> max_entries c \<and> distinct (cache_keys c))"

definition lru_key :: "'v lru_cache \<Rightarrow> string option" where
  "lru_key c = (case entries c of [] \<Rightarrow> None | e # es \<Rightarrow> Some (fst e))"

text \<open>
  Histories of cache operations, to say what least recently used means without the
  order of the entries: \<open>run\<close> applies the operations one after the other and logs
  which key each of them used (a \<open>get\<close> that finds its key uses it, a \<open>set\<close> uses its
  key); \<open>last_use log k\<close> is the position of the last use of \<open>k\<close> in the log, counted
  from one, or zero when the log never uses \<open>k\<close>.
\<close>

datatype 'v cache_op = Get nat string | Put nat string 'v

fun apply_op :: "'v cache_op \<Rightarrow> 'v lru_cache \<Rightarrow> 'v lru_cache" where
  "apply_op (Get t k) c = snd (cache_get t k c)"
| "apply_op (Put t k v) c = cache_set t k v c"

fun uses :: "'v cache_op \<Rightarrow> 'v lru_cache \<Rightarrow> string option" where
  "uses (Get t k) c = (if cache_has t k c then Some k else None)"
| "uses (Put t k v) c = Some k"

fun run :: "'v cache_op list \<Rightarrow> 'v lru_cache \<times> string option list
    \<Rightarrow> 'v lru_cache \<times> string option list" where
  "run [] s = s"
| "run (x # xs) (c, log) = run xs (apply_op x c, log @ [uses x c])"

definition last_use :: "string option list \<Rightarrow> string \<Rightarrow> nat" where
  "last_use log k = length (dropWhile (\<lambda>x. x \<noteq> Some k) (rev log))"

definition use_ordered :: "'v lru_cache \<times> string option list \<Rightarrow> bool" where
  "use_ordered s =
     (case s of (c, log) \<Rightarrow>
        cache_ok c \<and> sorted_wrt (\<lambda>a b. last_use log a < last_use log b) (cache_keys c))"

section \<open>The durable store\<close>

text \<open>
  Modelled from the spec: the Supabase service behind \<open>@supabase/supabase-js\<close>, whose
  code is not part of the repository (sections 4.3 and 6 of the specification: a key-value
  service with a unique key column, get by key with an optional expiry filter, and
  insert).  The tables are keyed by their hash column.  A call to the client
  resolves to \<open>{ data, error }\<close>: it works (\<open>Ok\<close>), reports an error
  (\<open>Fails\<close>: \<open>data\<close> is null and \<open>error\<close> is set), or, unexpectedly, throws
  (nothing is read or written then).
  \<open>.single()\<close> gives the row with the key or, when there is none, null data and an
  error; an insert of a key that is there is rejected.
\<close>

datatype io = Ok | Fails | Throws

definition select_single :: "io \<Rightarrow> (string \<rightharpoonup> 'r) \<Rightarrow> string \<Rightarrow> 'r option" where
  "select_single r tbl k = (if r = Ok then tbl k else None)"

definition db_insert :: "io \<Rightarrow> (string \<rightharpoonup> 'r) \<Rightarrow> string \<Rightarrow> 'r \<Rightarrow> (string \<rightharpoonup> 'r) \<times> bool" where
  "db_insert r tbl k row =
     (if r = Ok \<and> tbl k = None then (tbl(k \<mapsto> row), False) else (tbl, True))"

text \<open>A row of \<open>identity_verifications\<close> (verifyWithSupabase.js, index.js).\<close>

record verification =
  r_issuer :: jsval
  r_credential :: jsval
  r_verified :: bool
  r_proof_signature :: "string option"
  r_created_at :: "nat option"

text \<open>A row of \<open>verification_proofs\<close> (supabaseClient.js).\<close>

record proof_row =
  is_valid :: bool
  trust_score :: int
  proof_data :: jsval
  expires_at :: nat

section \<open>The environment of one request\<close>

text \<open>
  What a request reads from outside the process: the clock when the pipeline starts
  (the cache probe, the expiry filter) and when it writes, how the store's select and
  insert go, and the output of \<open>crypto.randomBytes(n).toString("hex")\<close>
  (\<open>None\<close>: the call throws).
\<close>

record env =
  clock :: nat
  clock_write :: nat
  select_io :: io
  insert_io :: io
  random_hex :: "string option"

text \<open>How a call ends: the handler writes an HTTP response; an async function resolves
  to a value; or an exception leaves it (a rejected promise, no response written).\<close>

datatype outcome = Response nat jsval | Resolved jsval | Rejected js_error

text \<open>What a request touched, in order.\<close>

datatype event =
    DeriveKey
  | CacheProbe string
  | StoreSelect string
  | Compute
  | StoreInsert string
  | CachePut string

fun tier_of :: "event \<Rightarrow> nat option" where
  "tier_of (CacheProbe k) = Some 1"
| "tier_of (StoreSelect k) = Some 2"
| "tier_of Compute = Some 3"
| "tier_of ev = None"

definition tiers :: "event list \<Rightarrow> nat list" where
  "tiers tr = List.map_filter tier_of tr"

definition generateMockProof :: "env \<Rightarrow> js_error + string" where
  "generateMockProof e =
     (case random_hex e of None \<Rightarrow> Inl Error | Some h \<Rightarrow> Inr (''0x'' @ h))"

fun nullable :: "string option \<Rightarrow> jsval" where
  "nullable None = JNull"
| "nullable (Some s) = JStr s"

fun or_undefined :: "jsval option \<Rightarrow> jsval" where
  "or_undefined None = JUndefined"
| "or_undefined (Some v) = v"

section \<open>index.js: the all-in-one server\<close>

record server =
  proofCache :: "jsval lru_cache"
  identity_verifications :: "string \<rightharpoonup> verification"

definition CACHE_TTL :: nat where
  "CACHE_TTL = 1000 * 60 * 60"

definition server_init :: server where
  "server_init = \<lparr>proofCache = LRUCache 5000 CACHE_TTL, identity_verifications = Map.empty\<rparr>"

definition with_source :: "jsval \<Rightarrow> string \<Rightarrow> jsval" where
  "with_source v src = JObj (obj_put (js_spread v) ''source'' (JStr src))"

definition server_error :: outcome where
  "server_error = Response 500 (JObj [(''error'', JStr ''Verification Failed'')])"

text \<open>The object literals \<open>newResult\<close> (lines 113 to 118, with \<open>isVerified\<close>) and
  \<open>result\<close> (lines 94 to 99, from the row \<open>dbData\<close>).\<close>

definition newResult :: "bool \<Rightarrow> string \<Rightarrow> jsval" where
  "newResult isVerified proofSignature =
     JObj [(''success'', JBool True), (''verified'', JBool isVerified),
           (''proof'', JStr proofSignature),
           (''message'', JStr ''New Identity Verified & Cached'')]"

definition db_result :: "verification \<Rightarrow> jsval" where
  "db_result dbData =
     JObj [(''success'', JBool True), (''verified'', JBool (r_verified dbData)),
           (''proof'', nullable (r_proof_signature dbData)),
           (''message'', JStr ''Retrieved from persistent storage'')]"

text \<open>Layer 3 of \<open>app.post("/check")\<close>, lines 104 to 132.  The insert is not awaited:
  the handler goes on without its outcome.\<close>

definition layer3 :: "env \<Rightarrow> jsval \<Rightarrow> jsval \<Rightarrow> string \<Rightarrow> server \<Rightarrow> outcome \<times> server \<times> event list" where
  "layer3 e issuer credential requestHash s =
     (case generateMockProof e of
        Inl err \<Rightarrow> (server_error, s, [Compute])
      | Inr proofSignature \<Rightarrow>
          (let isVerified = True;
               tbl = fst (db_insert (insert_io e) (identity_verifications s) requestHash
                      \<lparr>r_issuer = issuer, r_credential = credential, r_verified = isVerified,
                       r_proof_signature = Some proofSignature, r_created_at = None\<rparr>)
           in (Response 200 (with_source (newResult isVerified proofSignature) ''NEW_COMPUTE''),
               s\<lparr>identity_verifications := tbl,
                 proofCache := cache_set (clock_write e) requestHash
                                 (newResult isVerified proofSignature) (proofCache s)\<rparr>,
               [Compute, StoreInsert requestHash, CachePut requestHash])))"

text \<open>Layer 2, lines 84 to 102, falling through to layer 3.\<close>

definition layer2 :: "env \<Rightarrow> jsval \<Rightarrow> jsval \<Rightarrow> string \<Rightarrow> server \<Rightarrow> outcome \<times> server \<times> event list" where
  "layer2 e issuer credential requestHash s =
     (if select_io e = Throws then (server_error, s, [StoreSelect requestHash])
      else
        (case select_single (select_io e) (identity_verifications s) requestHash of
           Some dbData \<Rightarrow>
             (Response 200 (with_source (db_result dbData) ''0G_DISK_CACHE''),
              s\<lparr>proofCache := cache_set (clock_write e) requestHash (db_result dbData)
                                (proofCache s)\<rparr>,
              [StoreSelect requestHash, CachePut requestHash])
         | None \<Rightarrow>
             (case layer3 e issuer credential requestHash s of
                (out, s', tr) \<Rightarrow> (out, s', StoreSelect requestHash # tr))))"

text \<open>The try block, lines 76 to 137, from layer 1 on.\<close>

definition layers :: "env \<Rightarrow> jsval \<Rightarrow> jsval \<Rightarrow> string \<Rightarrow> server \<Rightarrow> outcome \<times> server \<times> event list" where
  "layers e issuer credential requestHash s =
     (if cache_has (clock e) requestHash (proofCache s)
      then
        (case cache_get (clock e) requestHash (proofCache s) of
           (cachedResult, c) \<Rightarrow>
             (Response 200 (with_source (or_undefined cachedResult) ''0G_RAM_CACHE''),
              s\<lparr>proofCache := c\<rparr>, [CacheProbe requestHash]))
      else
        (case layer2 e issuer credential requestHash s of
           (out, s', tr) \<Rightarrow> (out, s', CacheProbe requestHash # tr)))"

text \<open>\<open>app.post("/check")\<close>, lines 66 to 138.  The key is derived before the try
  block, so an exception of \<open>generateIdentityHash\<close> leaves the handler.\<close>

definition check :: "env \<Rightarrow> jsval \<Rightarrow> jsval \<Rightarrow> server \<Rightarrow> outcome \<times> server \<times> event list" where
  "check e issuer credential s =
     (if \<not> truthy issuer \<or> \<not> truthy credential
      then (Response 400 (JObj [(''error'', JStr ''Missing issuer or credential'')]), s, [])
      else
        (case generateIdentityHash issuer credential of
           Inl err \<Rightarrow> (Rejected err, s, [])
         | Inr requestHash \<Rightarrow>
             (case layers e issuer credential requestHash s of
                (out, s', tr) \<Rightarrow> (out, s', DeriveKey # tr))))"


section \<open>verifyWithSupabase.js\<close>

text \<open>\<open>v.toLowerCase()\<close>: only a string has the method.\<close>

fun js_toLowerCase :: "jsval \<Rightarrow> js_error + string" where
  "js_toLowerCase (JStr s) = Inr (toLowerCase s)"
| "js_toLowerCase v = Inl TypeError"

text \<open>\<open>s.includes(pat)\<close>\<close>

fun str_includes :: "string \<Rightarrow> string \<Rightarrow> bool" where
  "str_includes [] pat = (pat = [])"
| "str_includes (x # xs) pat = (prefix pat (x # xs) \<or> str_includes xs pat)"

definition pipeline_failure :: outcome where
  "pipeline_failure =
     Resolved (JObj [(''success'', JBool False),
                     (''message'', JStr ''Internal Server Error during verification pipeline.'')])"

text \<open>The verdict of lines 71 to 73; \<open>&&\<close> evaluates its second operand only when
  the first holds.\<close>

definition isVerified :: "jsval \<Rightarrow> jsval \<Rightarrow> js_error + bool" where
  "isVerified issuer credential =
     (case js_toLowerCase issuer of
        Inl err \<Rightarrow> Inl err
      | Inr i \<Rightarrow>
          if i = ''jain university''
          then (case js_toLowerCase credential of
                  Inl err \<Rightarrow> Inl err
                | Inr c \<Rightarrow> Inr (str_includes c ''student''))
          else Inr False)"

text \<open>Steps 2 and 3 of \<open>verifyIdentity\<close>, lines 66 to 108: compute, then commit.  The
  proof is generated for a verified identity only.\<close>

definition compute_and_commit ::
  "env \<Rightarrow> jsval \<Rightarrow> jsval \<Rightarrow> string \<Rightarrow> (string \<rightharpoonup> verification)
     \<Rightarrow> outcome \<times> (string \<rightharpoonup> verification) \<times> event list" where
  "compute_and_commit e issuer credential identityHash tbl =
     (case isVerified issuer credential of
        Inl err \<Rightarrow> (pipeline_failure, tbl, [Compute])
      | Inr verdict \<Rightarrow>
          (case (if verdict then map_sum id Some (generateMockProof e) else Inr None) of
             Inl err \<Rightarrow> (pipeline_failure, tbl, [Compute])
           | Inr proofSignature \<Rightarrow>
               if insert_io e = Throws
               then (pipeline_failure, tbl, [Compute, StoreInsert identityHash])
               else
                 (Resolved (JObj
                    [(''success'', JBool True), (''verified'', JBool verdict),
                     (''proof'', nullable proofSignature),
                     (''source'', JStr ''COMPUTE (NEW_EXECUTION)''),
                     (''message'', JStr (if verdict
                         then ''Identity verified and cached for future use.''
                         else ''Identity verification failed.''))]),
                  fst (db_insert (insert_io e) tbl identityHash
                    \<lparr>r_issuer = issuer, r_credential = credential, r_verified = verdict,
                     r_proof_signature = proofSignature, r_created_at = Some (clock_write e)\<rparr>),
                  [Compute, StoreInsert identityHash])))"

text \<open>
  \<open>const supabase = require("./supabaseClient")\<close> (line 3).  supabaseClient.js ends
  with \<open>module.exports = verifyIdentity\<close> (line 136): the module exports its pipeline
  function and keeps the client it creates to itself.  So \<open>supabase\<close> is a function; a
  function has no property \<open>from\<close>, and \<open>supabase.from("identity_verifications")\<close>,
  the first step of the try block, throws a TypeError.
\<close>

datatype module_value = ClientObject | FunctionObject

definition supabase :: module_value where
  "supabase = FunctionObject"

text \<open>\<open>m.from(table)\<close>: a query builder of a client; not a function of anything
  else.\<close>

fun supabase_from :: "module_value \<Rightarrow> js_error + unit" where
  "supabase_from ClientObject = Inr ()"
| "supabase_from FunctionObject = Inl TypeError"

text \<open>\<open>verifyIdentity\<close> of verifyWithSupabase.js, lines 32 to 117.  The exception of
  \<open>supabase.from\<close> is thrown inside the try block and caught at line 110, before
  anything is sent to the store.\<close>

definition verifyIdentity ::
  "env \<Rightarrow> jsval \<Rightarrow> jsval \<Rightarrow> (string \<rightharpoonup> verification)
     \<Rightarrow> outcome \<times> (string \<rightharpoonup> verification) \<times> event list" where
  "verifyIdentity e issuer credential tbl =
     (if \<not> truthy issuer \<or> \<not> truthy credential
      then (Resolved (JObj [(''success'', JBool False),
              (''error'', JStr ''Invalid Input: 'issuer' and 'credential' are required.'')]),
            tbl, [])
      else
        (case generateIdentityHash issuer credential of
           Inl err \<Rightarrow> (Rejected err, tbl, [])
         | Inr identityHash \<Rightarrow>
             (case supabase_from supabase of
                Inl err \<Rightarrow> (pipeline_failure, tbl, [DeriveKey])
              | Inr builder \<Rightarrow>
                  if select_io e = Throws
                  then (pipeline_failure, tbl, [DeriveKey, StoreSelect identityHash])
                  else
                    (case select_single (select_io e) tbl identityHash of
                       Some cachedData \<Rightarrow>
                         (Resolved (JObj
                            [(''success'', JBool True),
                             (''verified'', JBool (r_verified cachedData)),
                             (''proof'', nullable (r_proof_signature cachedData)),
                             (''source'', JStr ''CACHE (0G_LAYER)''),
                             (''timestamp'', (case r_created_at cachedData of
                                               None \<Rightarrow> JNull | Some t \<Rightarrow> JNum (int t))),
                             (''message'',
                              JStr ''Identity retrieved from cache (Zero Compute Cost).'')]),
                          tbl, [DeriveKey, StoreSelect identityHash])
                     | None \<Rightarrow>
                         (case compute_and_commit e issuer credential identityHash tbl of
                            (out, tbl', tr) \<Rightarrow>
                              (out, tbl', DeriveKey # StoreSelect identityHash # tr))))))"

section \<open>supabaseClient.js: the persistence layer\<close>

text \<open>\<open>issuer.startsWith(p)\<close>: only a string has the method.\<close>

fun js_startsWith :: "jsval \<Rightarrow> string \<Rightarrow> js_error + bool" where
  "js_startsWith (JStr s) p = Inr (prefix p s)"
| "js_startsWith v p = Inl TypeError"

text \<open>The value \<open>performHeavyVerification\<close> resolves to.  Its body runs in a timer
  callback: an exception there is caught by nobody and the promise never settles.\<close>

record heavy_result =
  isValid :: bool
  score :: int
  proof_val :: jsval

definition performHeavyVerification :: "env \<Rightarrow> jsval \<Rightarrow> jsval \<Rightarrow> js_error + heavy_result" where
  "performHeavyVerification e issuer credential =
     (case js_startsWith issuer ''did:ethr'' of
        Inl err \<Rightarrow> Inl err
      | Inr v \<Rightarrow>
          (case random_hex e of
             None \<Rightarrow> Inl Error
           | Some h \<Rightarrow>
               Inr \<lparr>isValid = v, score = (if v then 99 else 10),
                    proof_val = JObj [(''method'', JStr ''zk-snark''),
                                  (''timestamp'', JNum (int (clock_write e))),
                                  (''signature'', JStr h)]\<rparr>))"

text \<open>\<open>.gt("expires_at", now)\<close>: the rows that expire after \<open>now\<close>.\<close>

definition gt_expires_at :: "nat \<Rightarrow> (string \<rightharpoonup> proof_row) \<Rightarrow> (string \<rightharpoonup> proof_row)" where
  "gt_expires_at now tbl =
     (\<lambda>k. case tbl k of
             None \<Rightarrow> None
           | Some r \<Rightarrow> if now < expires_at r then Some r else None)"

definition identity_pipeline_failure :: outcome where
  "identity_pipeline_failure =
     Resolved (JObj [(''success'', JBool False), (''error'', JStr ''Identity Pipeline Failure'')])"

text \<open>An outcome of its own for the exception in the timer callback.\<close>

datatype p_outcome = Settled outcome | Uncaught js_error

text \<open>\<open>verifyIdentity\<close> of supabaseClient.js, lines 47 to 115.\<close>

definition verifyIdentity_persistence ::
  "env \<Rightarrow> jsval \<Rightarrow> jsval \<Rightarrow> (string \<rightharpoonup> proof_row)
     \<Rightarrow> p_outcome \<times> (string \<rightharpoonup> proof_row) \<times> event list" where
  "verifyIdentity_persistence e issuer credential tbl =
     (case generateFingerprint issuer credential of
        Inl err \<Rightarrow> (Settled (Rejected err), tbl, [])
      | Inr fingerprint \<Rightarrow>
          if select_io e = Throws
          then (Settled identity_pipeline_failure, tbl, [DeriveKey, StoreSelect fingerprint])
          else
            (case select_single (select_io e) (gt_expires_at (clock e) tbl) fingerprint of
               Some cachedProof \<Rightarrow>
                 (Settled (Resolved (JObj
                    [(''success'', JBool True), (''verified'', JBool (is_valid cachedProof)),
                     (''trustScore'', JNum (trust_score cachedProof)),
                     (''source'', JStr ''PERSISTENT_CACHE''),
                     (''proof'', proof_data cachedProof),
                     (''latency'', JStr ''Low (<50ms)'')])),
                  tbl, [DeriveKey, StoreSelect fingerprint])
             | None \<Rightarrow>
                 (case performHeavyVerification e issuer credential of
                    Inl err \<Rightarrow> (Uncaught err, tbl, [DeriveKey, StoreSelect fingerprint, Compute])
                  | Inr verificationResult \<Rightarrow>
                      if insert_io e = Throws
                      then (Settled identity_pipeline_failure, tbl,
                            [DeriveKey, StoreSelect fingerprint, Compute, StoreInsert fingerprint])
                      else
                        (Settled (Resolved (JObj
                           [(''success'', JBool True),
                            (''verified'', JBool (isValid verificationResult)),
                            (''trustScore'', JNum (score verificationResult)),
                            (''source'', JStr ''NEW_COMPUTE''),
                            (''proof'', proof_val verificationResult),
                            (''latency'', JStr ''High (Processed)'')])),
                         fst (db_insert (insert_io e) tbl fingerprint
                           \<lparr>is_valid = isValid verificationResult,
                            trust_score = score verificationResult,
                            proof_data = proof_val verificationResult,
                            expires_at = clock_write e + 1000 * 60 * 60 * 24\<rparr>),
                         [DeriveKey, StoreSelect fingerprint, Compute,
                          StoreInsert fingerprint]))))"


section \<open>Properties of the key derivation\<close>

lemma is_ws_code: "is_ws c = (of_char c \<in> {32, 9, 10, 11, 12, 13 :: nat})"
proof -
  have e: "(c = d) = (of_char c = (of_char d :: nat))" for d
    by (simp add: of_char_eq_iff)
  show ?thesis
    by (simp add: is_ws_def e [of "CHR 0x20"] e [of "CHR 0x09"] e [of "CHR 0x0A"]
        e [of "CHR 0x0B"] e [of "CHR 0x0C"] e [of "CHR 0x0D"])
qed

lemma is_ws_lower_char: "is_ws (lower_char c) = is_ws c"
  by (auto simp: is_ws_code lower_char_def)

lemma dropWhile_ws_pad: "list_all is_ws a \<Longrightarrow> dropWhile is_ws (a @ s) = dropWhile is_ws s"
  by (induction a) auto

lemma dropWhile_ws_all: "list_all is_ws s \<Longrightarrow> dropWhile is_ws s = []"
  by (induction s) auto

lemma trim_pad_left: "list_all is_ws a \<Longrightarrow> trim (a @ s) = trim s"
  by (simp add: trim_def dropWhile_ws_pad)

lemma trim_pad_right:
  assumes "list_all is_ws b"
  shows "trim (s @ b) = trim s"
proof (cases "list_all is_ws s")
  case True
  with assms have "list_all is_ws (s @ b)" by simp
  then show ?thesis using True by (simp add: trim_def dropWhile_ws_all del: list_all_append)
next
  case False
  then obtain x where "x \<in> set s" "\<not> is_ws x" by (auto simp: list_all_iff)
  then have "dropWhile is_ws (s @ b) = dropWhile is_ws s @ b"
    by simp
  moreover have "list_all is_ws (rev b)" using assms by (simp add: list_all_iff)
  ultimately show ?thesis by (simp add: trim_def dropWhile_ws_pad)
qed

lemma trim_pad: "list_all is_ws a \<Longrightarrow> list_all is_ws b \<Longrightarrow> trim (a @ s @ b) = trim s"
  by (simp add: trim_pad_left trim_pad_right)

lemma dropWhile_ws_lower:
  "dropWhile is_ws (map lower_char s) = map lower_char (dropWhile is_ws s)"
  by (induction s) (auto simp: is_ws_lower_char)

lemma toLowerCase_trim: "toLowerCase (trim s) = trim (toLowerCase s)"
  by (simp add: toLowerCase_def trim_def rev_map dropWhile_ws_lower)

lemma generateIdentityHash_strings:
  "generateIdentityHash (JStr i) (JStr c) =
     Inr (sha256_hex (stringify_object
            [(''issuer'', JStr (toLowerCase (trim i))), (''credential'', JStr (trim c))]))"
  by (simp add: generateIdentityHash_def)

lemma generateIdentityHash_Inr:
  "generateIdentityHash issuer credential = Inr k \<Longrightarrow> \<exists>i c. issuer = JStr i \<and> credential = JStr c"
  by (cases issuer; cases credential) (simp_all add: generateIdentityHash_def)

lemma generateFingerprint_id:
  "js_get c1 ''id'' = js_get c2 ''id'' \<Longrightarrow>
     generateFingerprint issuer c1 = generateFingerprint issuer c2"
  by (simp add: generateFingerprint_def)

lemma generateFingerprint_string:
  "generateFingerprint issuer (JStr s) =
     Inr (sha256_hex (stringify_object [(''issuer'', issuer)]))"
  by (simp add: generateFingerprint_def stringify_object_def split: option.splits)

section \<open>Properties of the persistence layer\<close>

lemma persistence_first_run:
  assumes "generateFingerprint issuer c1 = Inr k"
    and "tbl k = None"
    and "select_io e1 \<noteq> Throws" "insert_io e1 = Ok"
    and "performHeavyVerification e1 issuer c1 = Inr vr"
  shows "fst (snd (verifyIdentity_persistence e1 issuer c1 tbl)) =
           tbl(k \<mapsto> \<lparr>is_valid = isValid vr, trust_score = score vr, proof_data = proof_val vr,
                       expires_at = clock_write e1 + 1000 * 60 * 60 * 24\<rparr>)"
  using assms
  by (simp add: verifyIdentity_persistence_def select_single_def gt_expires_at_def db_insert_def)

lemma persistence_hit:
  assumes "generateFingerprint issuer c2 = Inr k"
    and "tbl k = Some r" "clock e2 < expires_at r"
    and "select_io e2 = Ok"
  shows "fst (verifyIdentity_persistence e2 issuer c2 tbl) =
           Settled (Resolved (JObj
                    [(''success'', JBool True), (''verified'', JBool (is_valid r)),
                     (''trustScore'', JNum (trust_score r)),
                     (''source'', JStr ''PERSISTENT_CACHE''),
                     (''proof'', proof_data r),
                     (''latency'', JStr ''Low (<50ms)'')]))"
  using assms
  by (simp add: verifyIdentity_persistence_def select_single_def gt_expires_at_def)

text \<open>
  C10.  In the persistence layer the fingerprint is a function of the issuer and of
  \<open>credential.id\<close> alone: two credentials with the same \<open>id\<close> get the same fingerprint
  for a fixed issuer; any two plain-string credentials do, since the \<open>id\<close> of a string
  is undefined and \<open>JSON.stringify\<close> drops the property, leaving the issuer alone in
  the payload; and so they share one record: after a request for the first credential
  has stored its result, a request for the second one, before the record expires, is
  served that record from the store.
\<close>

theorem fingerprint_from_issuer_and_id_only:
  "(js_get c1 ''id'' = js_get c2 ''id'' \<longrightarrow>
      generateFingerprint issuer c1 = generateFingerprint issuer c2) \<and>
   generateFingerprint issuer (JStr s1) = generateFingerprint issuer (JStr s2) \<and>
   generateFingerprint issuer (JStr s1) =
     Inr (sha256_hex (stringify_object [(''issuer'', issuer)])) \<and>
   (js_get c1 ''id'' = js_get c2 ''id'' \<and> generateFingerprint issuer c1 = Inr k \<and>
    tbl k = None \<and> select_io e1 \<noteq> Throws \<and> insert_io e1 = Ok \<and>
    performHeavyVerification e1 issuer c1 = Inr vr \<and>
    select_io e2 = Ok \<and> clock e2 < clock_write e1 + 1000 * 60 * 60 * 24 \<longrightarrow>
      fst (verifyIdentity_persistence e2 issuer c2
             (fst (snd (verifyIdentity_persistence e1 issuer c1 tbl)))) =
        Settled (Resolved (JObj
                    [(''success'', JBool True), (''verified'', JBool (isValid vr)),
                     (''trustScore'', JNum (score vr)),
                     (''source'', JStr ''PERSISTENT_CACHE''),
                     (''proof'', proof_val vr),
                     (''latency'', JStr ''Low (<50ms)'')])))"
proof (intro conjI impI)
  show "generateFingerprint issuer (JStr s1) = generateFingerprint issuer (JStr s2)"
    by (simp add: generateFingerprint_string)
  show "generateFingerprint issuer (JStr s1) =
          Inr (sha256_hex (stringify_object [(''issuer'', issuer)]))"
    by (rule generateFingerprint_string)
next
  assume "js_get c1 ''id'' = js_get c2 ''id''"
  then show "generateFingerprint issuer c1 = generateFingerprint issuer c2"
    by (rule generateFingerprint_id)
next
  assume a: "js_get c1 ''id'' = js_get c2 ''id'' \<and> generateFingerprint issuer c1 = Inr k \<and>
    tbl k = None \<and> select_io e1 \<noteq> Throws \<and> insert_io e1 = Ok \<and>
    performHeavyVerification e1 issuer c1 = Inr vr \<and>
    select_io e2 = Ok \<and> clock e2 < clock_write e1 + 1000 * 60 * 60 * 24"
  let ?r = "\<lparr>is_valid = isValid vr, trust_score = score vr, proof_data = proof_val vr,
             expires_at = clock_write e1 + 1000 * 60 * 60 * 24\<rparr>"
  from a have k2: "generateFingerprint issuer c2 = Inr k"
    using generateFingerprint_id [of c1 c2 issuer] by simp
  from a have "fst (snd (verifyIdentity_persistence e1 issuer c1 tbl)) = tbl(k \<mapsto> ?r)"
    by (intro persistence_first_run) simp_all
  moreover have "fst (verifyIdentity_persistence e2 issuer c2 (tbl(k \<mapsto> ?r))) =
      Settled (Resolved (JObj
                    [(''success'', JBool True), (''verified'', JBool (is_valid ?r)),
                     (''trustScore'', JNum (trust_score ?r)),
                     (''source'', JStr ''PERSISTENT_CACHE''),
                     (''proof'', proof_data ?r),
                     (''latency'', JStr ''Low (<50ms)'')]))"
    using a k2 by (intro persistence_hit [where k = k]) simp_all
  ultimately show "fst (verifyIdentity_persistence e2 issuer c2
             (fst (snd (verifyIdentity_persistence e1 issuer c1 tbl)))) =
        Settled (Resolved (JObj
                    [(''success'', JBool True), (''verified'', JBool (isValid vr)),
                     (''trustScore'', JNum (score vr)),
                     (''source'', JStr ''PERSISTENT_CACHE''),
                     (''proof'', proof_val vr),
                     (''latency'', JStr ''Low (<50ms)'')]))"
    by simp
qed

theorem fingerprint_from_issuer_and_id_only_witness:
  "js_get (JStr ''diploma'') ''id'' = js_get (JStr ''passport'') ''id'' \<and>
   generateFingerprint (JStr ''did:ethr:0x1'') (JStr ''diploma'') =
     generateFingerprint (JStr ''did:ethr:0x1'') (JStr ''passport'') \<and>
   fst (verifyIdentity_persistence
          \<lparr>clock = 90000, clock_write = 90100, select_io = Ok, insert_io = Ok,
           random_hex = Some ''00''\<rparr>
          (JStr ''did:ethr:0x1'') (JStr ''passport'')
          (fst (snd (verifyIdentity_persistence
             \<lparr>clock = 1000, clock_write = 2500, select_io = Ok, insert_io = Ok,
              random_hex = Some ''c0ffee''\<rparr>
             (JStr ''did:ethr:0x1'') (JStr ''diploma'') Map.empty)))) =
     Settled (Resolved (JObj
        [(''success'', JBool True), (''verified'', JBool True), (''trustScore'', JNum 99),
         (''source'', JStr ''PERSISTENT_CACHE''),
         (''proof'', JObj [(''method'', JStr ''zk-snark''), (''timestamp'', JNum 2500),
                           (''signature'', JStr ''c0ffee'')]),
         (''latency'', JStr ''Low (<50ms)'')]))"
proof -
  let ?e1 = "\<lparr>clock = 1000, clock_write = 2500, select_io = Ok, insert_io = Ok,
              random_hex = Some ''c0ffee''\<rparr>"
  let ?e2 = "\<lparr>clock = 90000, clock_write = 90100, select_io = Ok, insert_io = Ok,
           random_hex = Some ''00''\<rparr>"
  let ?vr = "\<lparr>isValid = True, score = 99,
              proof_val = JObj [(''method'', JStr ''zk-snark''), (''timestamp'', JNum 2500),
                           (''signature'', JStr ''c0ffee'')]\<rparr>"
  let ?k = "sha256_hex (stringify_object [(''issuer'', JStr ''did:ethr:0x1'')])"
  have h: "js_get (JStr ''diploma'') ''id'' = js_get (JStr ''passport'') ''id'' \<and>
    generateFingerprint (JStr ''did:ethr:0x1'') (JStr ''diploma'') = Inr ?k \<and>
    Map.empty ?k = (None :: proof_row option) \<and> select_io ?e1 \<noteq> Throws \<and> insert_io ?e1 = Ok \<and>
    performHeavyVerification ?e1 (JStr ''did:ethr:0x1'') (JStr ''diploma'') = Inr ?vr \<and>
    select_io ?e2 = Ok \<and> clock ?e2 < clock_write ?e1 + 1000 * 60 * 60 * 24"
    by (simp add: generateFingerprint_string performHeavyVerification_def)
  from fingerprint_from_issuer_and_id_only
    [where ?c1.0 = "JStr ''diploma''" and ?c2.0 = "JStr ''passport''"
       and issuer = "JStr ''did:ethr:0x1''" and k = ?k and tbl = Map.empty
       and ?e1.0 = ?e1 and ?e2.0 = ?e2 and vr = ?vr and ?s1.0 = "''diploma''" and ?s2.0 = "''passport''"] h
  show ?thesis by simp
qed

section \<open>Properties of the volatile cache\<close>

lemma map_of_remove_key: "map_of (remove_key k es) k' = (if k' = k then None else map_of es k')"
  by (induction es) (auto simp: remove_key_def)

lemma map_of_snoc_absent:
  "map_of es k = None \<Longrightarrow> map_of (es @ [(k, x)]) k' = (if k' = k then Some x else map_of es k')"
  by (auto simp: map_add_def split: option.splits)

lemma keys_remove_key: "map fst (remove_key k es) = removeAll k (map fst es)"
  by (induction es) (auto simp: remove_key_def)

lemma map_of_None_keys: "(map_of es k = None) = (k \<notin> set (map fst es))"
  by (simp add: map_of_eq_None_iff)

lemma cache_keys_set:
  "cache_keys (cache_set now k v c) =
     (if k \<in> set (cache_keys c) then removeAll k (cache_keys c) @ [k]
      else if max_entries c \<le> length (entries c) then tl (cache_keys c) @ [k]
      else cache_keys c @ [k])"
  by (auto simp: cache_set_def cache_keys_def keys_remove_key map_of_None_keys map_tl)

lemma map_of_tl_None: "map_of es k = None \<Longrightarrow> map_of (tl es) k = None"
  by (cases es) (auto split: if_splits)

lemma map_of_Some_keys: "map_of es k = Some x \<Longrightarrow> k \<in> set (map fst es)"
  by (metis map_of_None_keys option.distinct(1))

lemma cache_keys_get:
  "cache_keys (snd (cache_get now k c)) =
     (if cache_has now k c then removeAll k (cache_keys c) @ [k]
      else removeAll k (cache_keys c))"
  by (auto simp: cache_get_def cache_has_def cache_keys_def keys_remove_key map_of_None_keys
      dest: map_of_Some_keys split: option.splits)

lemma cache_get_value:
  "fst (cache_get now k c) =
     (case map_of (entries c) k of None \<Rightarrow> None
      | Some (v, start) \<Rightarrow> if is_stale c now start then None else Some v)"
  by (auto simp: cache_get_def split: option.splits)

lemma cache_get_has: "cache_has now k c = (fst (cache_get now k c) \<noteq> None)"
  by (auto simp: cache_get_def cache_has_def split: option.splits)

lemma cache_set_lookup:
  "map_of (entries (cache_set now k v c)) k = Some (v, now)"
  by (auto simp: cache_set_def map_add_def map_of_remove_key map_of_tl_None
      split: option.splits)

lemma is_stale_set [simp]: "is_stale (cache_set now k v c) = is_stale c"
  by (auto simp: cache_set_def is_stale_def fun_eq_iff)

lemma length_entries: "length (entries c) = length (cache_keys c)"
  by (simp add: cache_keys_def)

lemma max_entries_set [simp]: "max_entries (cache_set now k v c) = max_entries c"
  by (simp add: cache_set_def)

lemma cache_ok_set:
  assumes "cache_ok c"
  shows "cache_ok (cache_set now k v c)"
proof -
  let ?ks = "cache_keys c"
  from assms have ok: "0 < max_entries c" "length ?ks \<le> max_entries c" "distinct ?ks"
    by (simp_all add: cache_ok_def length_entries)
  show ?thesis
  proof (cases "k \<in> set ?ks")
    case True
    then have "length (removeAll k ?ks) < length ?ks"
      by (simp add: length_removeAll_less)
    with ok True show ?thesis
      by (simp add: cache_ok_def length_entries cache_keys_set distinct_removeAll)
  next
    case False
    show ?thesis
    proof (cases "max_entries c \<le> length (entries c)")
      case True
      have "k \<notin> set (tl ?ks)" using False by (cases ?ks) auto
      with ok True False show ?thesis
        by (simp add: cache_ok_def length_entries cache_keys_set distinct_tl)
    next
      case full: False
      with ok False show ?thesis
        by (simp add: cache_ok_def length_entries cache_keys_set)
    qed
  qed
qed


lemma cache_has_lookup:
  "map_of (entries c') k = map_of (entries c) k \<Longrightarrow> ttl_ms c' = ttl_ms c \<Longrightarrow>
     cache_has t k c' = cache_has t k c"
  by (auto simp: cache_has_def is_stale_def split: option.splits)

lemma cache_has_absent: "k \<notin> set (cache_keys c) \<Longrightarrow> \<not> cache_has t k c"
  by (auto simp: cache_has_def cache_keys_def dest: map_of_Some_keys split: option.splits)

lemma evict_step:
  assumes ok: "cache_ok c"
    and full: "length (entries c) = max_entries c"
    and new: "k \<notin> set (cache_keys c)"
  obtains old e es where "entries c = (old, e) # es" "lru_key c = Some old"
    "entries (cache_set now k v c) = es @ [(k, v, now)]"
    "old \<notin> set (map fst es)" "old \<noteq> k"
proof -
  from ok full obtain x es where c: "entries c = x # es"
    by (cases "entries c") (auto simp: cache_ok_def)
  obtain old e where x: "x = (old, e)" by (cases x)
  from ok c x have d: "old \<notin> set (map fst es)" by (simp add: cache_ok_def cache_keys_def)
  from new c x have "old \<noteq> k" by (auto simp: cache_keys_def)
  moreover from new have "map_of (entries c) k = None"
    by (simp add: map_of_None_keys cache_keys_def)
  then have "entries (cache_set now k v c) = es @ [(k, v, now)]"
    using full c by (simp add: cache_set_def)
  ultimately show ?thesis using that c x d by (simp add: lru_key_def)
qed

lemma evict_new_key:
  assumes ok: "cache_ok c"
    and full: "length (entries c) = max_entries c"
    and new: "k \<notin> set (cache_keys c)"
  shows "\<exists>old. lru_key c = Some old \<and>
           cache_keys c = old # tl (cache_keys c) \<and>
           cache_keys (cache_set now k v c) = tl (cache_keys c) @ [k] \<and>
           \<not> cache_has t old (cache_set now k v c) \<and>
           fst (cache_get t old (cache_set now k v c)) = None \<and>
           (\<forall>k' \<in> set (tl (cache_keys c)).
              map_of (entries (cache_set now k v c)) k' = map_of (entries c) k' \<and>
              cache_has t k' (cache_set now k v c) = cache_has t k' c \<and>
              fst (cache_get t k' (cache_set now k v c)) = fst (cache_get t k' c)) \<and>
           fst (cache_get now k (cache_set now k v c)) = Some v \<and>
           length (entries (cache_set now k v c)) = max_entries c"
proof -
  let ?c = "cache_set now k v c"
  from evict_step [OF ok full new, of now v]
  obtain old e es where c: "entries c = (old, e) # es" and lru: "lru_key c = Some old"
    and c': "entries ?c = es @ [(k, v, now)]" and old: "old \<notin> set (map fst es)" "old \<noteq> k"
    by blast
  have gone: "map_of (entries ?c) old = None"
    using old by (simp add: c' map_of_None_keys)
  have kept: "map_of (entries ?c) k' = map_of (entries c) k'" if "k' \<in> set (map fst es)" for k'
  proof -
    from that old have "k' \<noteq> old" by auto
    moreover from that obtain y where "map_of es k' = Some y"
      by (metis map_of_None_keys not_Some_eq)
    ultimately show ?thesis by (simp add: c c' map_add_def)
  qed
  have ttl: "ttl_ms ?c = ttl_ms c" by (simp add: cache_set_def)
  have "fst (cache_get now k ?c) = Some v"
    by (simp add: cache_get_value cache_set_lookup is_stale_def)
  moreover have "\<not> cache_has t old ?c" "fst (cache_get t old ?c) = None"
    using gone by (simp_all add: cache_has_def cache_get_value)
  moreover have "cache_has t k' ?c = cache_has t k' c"
      "fst (cache_get t k' ?c) = fst (cache_get t k' c)" if "k' \<in> set (map fst es)" for k'
    using kept [OF that] by (auto simp: cache_has_def cache_get_value split: option.splits)
  moreover have "length (entries ?c) = max_entries c"
    using full by (simp add: c c')
  ultimately show ?thesis
    using lru kept by (auto simp: cache_keys_def c c')
qed


lemma last_use_snoc:
  "last_use (log @ [x]) k = (if x = Some k then Suc (length log) else last_use log k)"
  by (simp add: last_use_def)

lemma last_use_le: "last_use log k \<le> length log"
  unfolding last_use_def by (metis length_dropWhile_le length_rev)

lemma sorted_wrt_tl: "sorted_wrt P xs \<Longrightarrow> sorted_wrt P (tl xs)"
  by (cases xs) auto

lemma sorted_wrt_removeAll: "sorted_wrt P xs \<Longrightarrow> sorted_wrt P (removeAll k xs)"
  by (induction xs) auto

lemma use_ordered_touch:
  assumes "sorted_wrt (\<lambda>a b. last_use log a < last_use log b) xs" and "k \<notin> set xs"
  shows "sorted_wrt (\<lambda>a b. last_use (log @ [Some k]) a < last_use (log @ [Some k]) b) (xs @ [k])"
proof -
  have same: "last_use (log @ [Some k]) a = last_use log a" if "a \<in> set xs" for a
    using that assms(2) by (auto simp: last_use_snoc)
  have "sorted_wrt (\<lambda>a b. last_use (log @ [Some k]) a < last_use (log @ [Some k]) b) xs"
    using assms(1) same
    by (metis (no_types, lifting) sorted_wrt_mono_rel)
  moreover have "last_use (log @ [Some k]) a < last_use (log @ [Some k]) k" if "a \<in> set xs" for a
    using same [OF that] last_use_le [of log a] by (simp add: last_use_snoc)
  ultimately show ?thesis by (simp add: sorted_wrt_append)
qed

lemma use_ordered_skip:
  assumes "sorted_wrt (\<lambda>a b. last_use log a < last_use log b) xs"
  shows "sorted_wrt (\<lambda>a b. last_use (log @ [None]) a < last_use (log @ [None]) b) xs"
  using assms by (simp add: last_use_snoc)

lemma cache_ok_get:
  assumes "cache_ok c"
  shows "cache_ok (snd (cache_get t k c))"
proof -
  let ?ks = "cache_keys c"
  from assms have ok: "0 < max_entries c" "length ?ks \<le> max_entries c" "distinct ?ks"
    by (simp_all add: cache_ok_def length_entries)
  have m: "max_entries (snd (cache_get t k c)) = max_entries c"
    by (auto simp: cache_get_def split: option.splits)
  show ?thesis
  proof (cases "cache_has t k c")
    case True
    then have "k \<in> set ?ks" using cache_has_absent [of k c t] by blast
    then have "length (removeAll k ?ks) < length ?ks" by (rule length_removeAll_less)
    with ok True show ?thesis
      by (simp add: cache_ok_def length_entries m cache_keys_get distinct_removeAll)
  next
    case False
    have "length (removeAll k ?ks) \<le> length ?ks" by (rule length_removeAll_less_eq)
    with ok(2) have "length (removeAll k ?ks) \<le> max_entries c" by linarith
    with ok False show ?thesis
      by (simp add: cache_ok_def length_entries m cache_keys_get distinct_removeAll)
  qed
qed

lemma use_ordered_step:
  assumes "use_ordered (c, log)"
  shows "use_ordered (apply_op x c, log @ [uses x c])"
proof (cases x)
  case (Get t k)
  with assms show ?thesis
    by (auto simp: use_ordered_def cache_ok_get cache_keys_get
        intro!: use_ordered_touch use_ordered_skip sorted_wrt_removeAll)
next
  case (Put t k v)
  have "k \<notin> set (tl (cache_keys c))" if "k \<notin> set (cache_keys c)"
    using that by (cases "cache_keys c") auto
  with Put assms show ?thesis
    by (auto simp: use_ordered_def cache_ok_set cache_keys_set
        intro!: use_ordered_touch sorted_wrt_removeAll sorted_wrt_tl)
qed

lemma use_ordered_run: "use_ordered s \<Longrightarrow> use_ordered (run ops s)"
proof (induction ops arbitrary: s)
  case Nil
  then show ?case by simp
next
  case (Cons x ops)
  obtain c log where s: "s = (c, log)" by (cases s)
  with Cons.prems have "use_ordered (apply_op x c, log @ [uses x c])"
    by (simp add: use_ordered_step)
  then show ?case using Cons.IH s by simp
qed

lemma use_ordered_init: "0 < N \<Longrightarrow> use_ordered (LRUCache N ttl, [])"
  by (simp add: use_ordered_def cache_ok_def LRUCache_def cache_keys_def)


lemma max_entries_apply_op [simp]: "max_entries (apply_op x c) = max_entries c"
  by (cases x) (auto simp: cache_get_def cache_set_def split: option.splits)

lemma max_entries_run: "run ops s = (c, log) \<Longrightarrow> max_entries c = max_entries (fst s)"
proof (induction ops arbitrary: s)
  case Nil
  then show ?case by simp
next
  case (Cons x ops)
  obtain c0 log0 where s: "s = (c0, log0)" by (cases s)
  with Cons.prems have "run ops (apply_op x c0, log0 @ [uses x c0]) = (c, log)" by simp
  from Cons.IH [OF this] show ?case by (simp add: s)
qed

text \<open>
  C8.  A cache built with maximum size \<open>N\<close> that, after any history of gets and sets,
  holds \<open>N\<close> keys and is given one more, new key evicts exactly one key, \<open>old\<close>:
  the least recently used one, that is, the key whose last use (a \<open>get\<close> that found it,
  or a \<open>set\<close> of it) lies before the last use of every other key of the cache.  The next
  lookup of \<open>old\<close> misses, at any time; every other key is still there with its entry, so
  that lookups of it answer as before; the new key is there; and the cache holds \<open>N\<close>
  keys again.
\<close>

theorem lru_evicts_least_recently_used:
  assumes N: "0 < N"
    and hist: "run ops (LRUCache N ttl, []) = (c, log)"
    and full: "length (entries c) = N"
    and new: "k \<notin> set (cache_keys c)"
  shows "\<exists>old. old \<in> set (cache_keys c) \<and>
           (\<forall>k' \<in> set (cache_keys c). k' \<noteq> old \<longrightarrow> last_use log old < last_use log k') \<and>
           set (cache_keys (cache_set now k v c)) = set (cache_keys c) - {old} \<union> {k} \<and>
           \<not> cache_has t old (cache_set now k v c) \<and>
           fst (cache_get t old (cache_set now k v c)) = None \<and>
           (\<forall>k' \<in> set (cache_keys c). k' \<noteq> old \<longrightarrow>
              map_of (entries (cache_set now k v c)) k' = map_of (entries c) k' \<and>
              cache_has t k' (cache_set now k v c) = cache_has t k' c \<and>
              fst (cache_get t k' (cache_set now k v c)) = fst (cache_get t k' c)) \<and>
           fst (cache_get now k (cache_set now k v c)) = Some v \<and>
           length (entries (cache_set now k v c)) = N"
proof -
  from use_ordered_run [OF use_ordered_init [OF N], of ops ttl] hist
  have ord: "sorted_wrt (\<lambda>a b. last_use log a < last_use log b) (cache_keys c)"
    and ok: "cache_ok c"
    by (simp_all add: use_ordered_def)
  from max_entries_run [OF hist] have m: "max_entries c = N" by (simp add: LRUCache_def)
  with full have full': "length (entries c) = max_entries c" by simp
  from evict_new_key [OF ok full' new, of now v t]
  obtain old where old: "lru_key c = Some old" "cache_keys c = old # tl (cache_keys c)"
    and keys: "cache_keys (cache_set now k v c) = tl (cache_keys c) @ [k]"
    and gone: "\<not> cache_has t old (cache_set now k v c)"
      "fst (cache_get t old (cache_set now k v c)) = None"
    and kept: "\<forall>k' \<in> set (tl (cache_keys c)).
              map_of (entries (cache_set now k v c)) k' = map_of (entries c) k' \<and>
              cache_has t k' (cache_set now k v c) = cache_has t k' c \<and>
              fst (cache_get t k' (cache_set now k v c)) = fst (cache_get t k' c)"
    and fresh: "fst (cache_get now k (cache_set now k v c)) = Some v"
      "length (entries (cache_set now k v c)) = max_entries c"
    by blast
  from ok have d: "distinct (cache_keys c)" by (simp add: cache_ok_def)
  with old(2) have notin: "old \<notin> set (tl (cache_keys c))"
    by (metis distinct.simps(2))
  have split: "set (cache_keys c) = insert old (set (tl (cache_keys c)))"
    by (metis old(2) list.simps(15))
  from ord old(2) have least: "\<forall>k' \<in> set (tl (cache_keys c)). last_use log old < last_use log k'"
    by (metis sorted_wrt.simps(2))
  have "old \<in> set (cache_keys c)" using split by simp
  moreover have "\<forall>k' \<in> set (cache_keys c). k' \<noteq> old \<longrightarrow> last_use log old < last_use log k'"
    using least split by auto
  moreover have "set (cache_keys (cache_set now k v c)) = set (cache_keys c) - {old} \<union> {k}"
    using keys split notin by auto
  moreover have "\<forall>k' \<in> set (cache_keys c). k' \<noteq> old \<longrightarrow>
              map_of (entries (cache_set now k v c)) k' = map_of (entries c) k' \<and>
              cache_has t k' (cache_set now k v c) = cache_has t k' c \<and>
              fst (cache_get t k' (cache_set now k v c)) = fst (cache_get t k' c)"
    using kept split by auto
  ultimately show ?thesis using gone fresh m by blast
qed

theorem lru_evicts_least_recently_used_witness:
  "0 < (2::nat) \<and>
   run [Put 0 ''a'' (1::nat), Put 1 ''b'' 2, Get 2 ''a''] (LRUCache 2 100, []) =
     (\<lparr>max_entries = 2, ttl_ms = 100, entries = [(''b'', 2, 1), (''a'', 1, 0)]\<rparr>,
      [Some ''a'', Some ''b'', Some ''a'']) \<and>
   ''c'' \<notin> set (cache_keys \<lparr>max_entries = 2, ttl_ms = 100,
                            entries = [(''b'', 2 :: nat, 1), (''a'', 1, 0)]\<rparr>) \<and>
   last_use [Some ''a'', Some ''b'', Some ''a''] ''b'' <
     last_use [Some ''a'', Some ''b'', Some ''a''] ''a'' \<and>
   entries (cache_set 3 ''c'' 3 \<lparr>max_entries = 2, ttl_ms = 100,
                            entries = [(''b'', 2 :: nat, 1), (''a'', 1, 0)]\<rparr>) =
     [(''a'', 1, 0), (''c'', 3, 3)] \<and>
   (\<exists>old. old \<in> {''a'', ''b''} \<and>
      \<not> cache_has 5 old (cache_set 3 ''c'' 3 \<lparr>max_entries = 2, ttl_ms = 100,
                            entries = [(''b'', 2 :: nat, 1), (''a'', 1, 0)]\<rparr>))"
proof -
  let ?c = "\<lparr>max_entries = 2, ttl_ms = 100, entries = [(''b'', 2 :: nat, 1), (''a'', 1, 0)]\<rparr>"
  let ?log = "[Some ''a'', Some ''b'', Some ''a'']"
  have h1: "0 < (2::nat)" by simp
  have h2: "run [Put 0 ''a'' (1::nat), Put 1 ''b'' 2, Get 2 ''a''] (LRUCache 2 100, []) = (?c, ?log)"
    by (simp add: LRUCache_def cache_set_def cache_get_def cache_has_def is_stale_def
        remove_key_def)
  have h3: "length (entries ?c) = 2" by simp
  have h4: "''c'' \<notin> set (cache_keys ?c)" by (simp add: cache_keys_def)
  from lru_evicts_least_recently_used [OF h1 h2 h3 h4, of 3 3 5]
  obtain old where "old \<in> set (cache_keys ?c)" "\<not> cache_has 5 old (cache_set 3 ''c'' 3 ?c)"
    by blast
  then have "\<exists>old. old \<in> {''a'', ''b''} \<and> \<not> cache_has 5 old (cache_set 3 ''c'' 3 ?c)"
    by (auto simp: cache_keys_def)
  moreover have "last_use ?log ''b'' < last_use ?log ''a''" by (simp add: last_use_def)
  moreover have "entries (cache_set 3 ''c'' 3 ?c) = [(''a'', 1, 0), (''c'', 3, 3)]"
    by (simp add: cache_set_def)
  ultimately show ?thesis using h1 h2 h4 by blast
qed

section \<open>Properties of the all-in-one server\<close>

lemma check_invalid:
  "\<not> truthy issuer \<or> \<not> truthy credential \<Longrightarrow>
     check e issuer credential s =
       (Response 400 (JObj [(''error'', JStr ''Missing issuer or credential'')]), s, [])"
  by (auto simp: check_def)

lemma check_rejected:
  "truthy issuer \<Longrightarrow> truthy credential \<Longrightarrow> generateIdentityHash issuer credential = Inl err \<Longrightarrow>
     check e issuer credential s = (Rejected err, s, [])"
  by (simp add: check_def)

lemma check_layers:
  "truthy issuer \<Longrightarrow> truthy credential \<Longrightarrow> generateIdentityHash issuer credential = Inr k \<Longrightarrow>
     check e issuer credential s =
       (case layers e issuer credential k s of (out, s', tr) \<Rightarrow> (out, s', DeriveKey # tr))"
  by (simp add: check_def)

lemma layers_hit:
  assumes "map_of (entries (proofCache s)) k = Some (v, start)"
    and "\<not> is_stale (proofCache s) (clock e) start"
  shows "layers e issuer credential k s =
           (Response 200 (with_source v ''0G_RAM_CACHE''),
            s\<lparr>proofCache := (proofCache s)
               \<lparr>entries := remove_key k (entries (proofCache s)) @ [(k, v, start)]\<rparr>\<rparr>,
            [CacheProbe k])"
  using assms by (simp add: layers_def cache_has_def cache_get_def)

lemma layers_miss:
  "\<not> cache_has (clock e) k (proofCache s) \<Longrightarrow>
     layers e issuer credential k s =
       (case layer2 e issuer credential k s of (out, s', tr) \<Rightarrow> (out, s', CacheProbe k # tr))"
  by (simp add: layers_def)

lemma layer2_throws:
  "select_io e = Throws \<Longrightarrow> layer2 e issuer credential k s = (server_error, s, [StoreSelect k])"
  by (simp add: layer2_def)


lemma layer2_miss:
  "select_io e \<noteq> Throws \<Longrightarrow> select_single (select_io e) (identity_verifications s) k = None \<Longrightarrow>
     layer2 e issuer credential k s =
       (case layer3 e issuer credential k s of (out, s', tr) \<Rightarrow> (out, s', StoreSelect k # tr))"
  by (simp add: layer2_def)

lemma layer3_throws:
  "random_hex e = None \<Longrightarrow> layer3 e issuer credential k s = (server_error, s, [Compute])"
  by (simp add: layer3_def generateMockProof_def)

lemma layer3_ok:
  "random_hex e = Some h \<Longrightarrow>
     layer3 e issuer credential k s =
       (Response 200 (with_source (newResult True (''0x'' @ h)) ''NEW_COMPUTE''),
        s\<lparr>identity_verifications :=
             fst (db_insert (insert_io e) (identity_verifications s) k
                   \<lparr>r_issuer = issuer, r_credential = credential, r_verified = True,
                    r_proof_signature = Some (''0x'' @ h), r_created_at = None\<rparr>),
          proofCache := cache_set (clock_write e) k (newResult True (''0x'' @ h)) (proofCache s)\<rparr>,
        [Compute, StoreInsert k, CachePut k])"
  by (simp add: layer3_def generateMockProof_def)

lemma tiers_simps [simp]:
  "tiers [] = []"
  "tiers (DeriveKey # tr) = tiers tr"
  "tiers (CacheProbe k # tr) = 1 # tiers tr"
  "tiers (StoreSelect k # tr) = 2 # tiers tr"
  "tiers (Compute # tr) = 3 # tiers tr"
  "tiers (StoreInsert k # tr) = tiers tr"
  "tiers (CachePut k # tr) = tiers tr"
  by (simp_all add: tiers_def List.map_filter_simps)

lemma layer3_tiers: "prefix (tiers (snd (snd (layer3 e i c k s)))) [3]"
  by (cases "random_hex e") (simp_all add: layer3_throws layer3_ok)

lemma layer2_tiers: "prefix (tiers (snd (snd (layer2 e i c k s)))) [2, 3]"
  using layer3_tiers [of e i c k s]
  by (auto simp: layer2_def split: option.splits prod.splits)

lemma layers_tiers: "prefix (tiers (snd (snd (layers e i c k s)))) [1, 2, 3]"
  using layer2_tiers [of e i c k s]
  by (auto simp: layers_def split: prod.splits)

lemma check_tiers: "prefix (tiers (snd (snd (check e issuer credential s)))) [1, 2, 3]"
proof (cases "truthy issuer \<and> truthy credential")
  case False
  then show ?thesis by (auto simp: check_invalid)
next
  case True
  show ?thesis
  proof (cases "generateIdentityHash issuer credential")
    case (Inl err)
    with True show ?thesis by (simp add: check_rejected)
  next
    case (Inr k)
    with True layers_tiers [of e issuer credential k s] show ?thesis
      by (auto simp: check_layers split: prod.splits)
  qed
qed

lemma layers_probe_first: "\<exists>tr. snd (snd (layers e i c k s)) = CacheProbe k # tr"
  by (auto simp: layers_def split: prod.splits)

lemma map_of_obj_put:
  "map_of (obj_put ps k v) k' = (if k' = k then Some v else map_of ps k')"
  by (induction ps) auto

lemma with_source_source: "js_get (with_source v src) ''source'' = Inr (JStr src)"
  by (simp add: with_source_def map_of_obj_put)

lemma with_source_other:
  "name \<noteq> ''source'' \<Longrightarrow> js_get (with_source (JObj ps) src) name = js_get (JObj ps) name"
  by (simp add: with_source_def map_of_obj_put)


lemma check_hit:
  assumes "truthy issuer" "truthy credential" "generateIdentityHash issuer credential = Inr k"
    and "map_of (entries (proofCache s)) k = Some (v, start)"
    and "\<not> is_stale (proofCache s) (clock e) start"
  shows "check e issuer credential s =
           (Response 200 (with_source v ''0G_RAM_CACHE''),
            s\<lparr>proofCache := (proofCache s)
               \<lparr>entries := remove_key k (entries (proofCache s)) @ [(k, v, start)]\<rparr>\<rparr>,
            [DeriveKey, CacheProbe k])"
  using assms by (simp add: check_layers layers_hit)


lemma check_compute:
  assumes "truthy issuer" "truthy credential" "generateIdentityHash issuer credential = Inr k"
    and "\<not> cache_has (clock e) k (proofCache s)"
    and "select_io e \<noteq> Throws"
    and "select_single (select_io e) (identity_verifications s) k = None"
    and "random_hex e = Some h"
  shows "check e issuer credential s =
           (Response 200 (with_source (newResult True (''0x'' @ h)) ''NEW_COMPUTE''),
            s\<lparr>identity_verifications :=
                 fst (db_insert (insert_io e) (identity_verifications s) k
                   \<lparr>r_issuer = issuer, r_credential = credential, r_verified = True,
                    r_proof_signature = Some (''0x'' @ h), r_created_at = None\<rparr>),
              proofCache := cache_set (clock_write e) k (newResult True (''0x'' @ h))
                              (proofCache s)\<rparr>,
            [DeriveKey, CacheProbe k, StoreSelect k, Compute, StoreInsert k, CachePut k])"
  using assms by (simp add: check_layers layers_miss layer2_miss layer3_ok)

lemma check_select_throws:
  assumes "truthy issuer" "truthy credential" "generateIdentityHash issuer credential = Inr k"
    and "\<not> cache_has (clock e) k (proofCache s)"
    and "select_io e = Throws"
  shows "check e issuer credential s = (server_error, s, [DeriveKey, CacheProbe k, StoreSelect k])"
  using assms by (simp add: check_layers layers_miss layer2_throws)

lemma check_compute_throws:
  assumes "truthy issuer" "truthy credential" "generateIdentityHash issuer credential = Inr k"
    and "\<not> cache_has (clock e) k (proofCache s)"
    and "select_io e \<noteq> Throws"
    and "select_single (select_io e) (identity_verifications s) k = None"
    and "random_hex e = None"
  shows "check e issuer credential s =
           (server_error, s, [DeriveKey, CacheProbe k, StoreSelect k, Compute])"
  using assms by (simp add: check_layers layers_miss layer2_miss layer3_throws)

lemma with_source_not_error: "Response 200 b \<noteq> server_error"
  by (simp add: server_error_def)

lemma layer3_error_unchanged: "fst (layer3 e i c k s) = server_error \<Longrightarrow> fst (snd (layer3 e i c k s)) = s"
  by (cases "random_hex e") (simp_all add: layer3_throws layer3_ok with_source_not_error)

lemma layer2_error_unchanged: "fst (layer2 e i c k s) = server_error \<Longrightarrow> fst (snd (layer2 e i c k s)) = s"
  using layer3_error_unchanged [of e i c k s]
  by (auto simp: layer2_def with_source_not_error split: option.splits prod.splits if_splits)

lemma layers_error_unchanged: "fst (layers e i c k s) = server_error \<Longrightarrow> fst (snd (layers e i c k s)) = s"
  using layer2_error_unchanged [of e i c k s]
  by (auto simp: layers_def with_source_not_error split: prod.splits if_splits)

lemma check_error_unchanged:
  "fst (check e issuer credential s) = server_error \<Longrightarrow> fst (snd (check e issuer credential s)) = s"
proof (cases "truthy issuer \<and> truthy credential")
  case False
  then show ?thesis by (auto simp: check_invalid)
next
  case True
  assume err: "fst (check e issuer credential s) = server_error"
  show ?thesis
  proof (cases "generateIdentityHash issuer credential")
    case (Inl x)
    with True show ?thesis by (simp add: check_rejected)
  next
    case (Inr k)
    with True err have "fst (layers e issuer credential k s) = server_error"
      by (auto simp: check_layers split: prod.splits)
    from layers_error_unchanged [OF this] True Inr show ?thesis
      by (auto simp: check_layers split: prod.splits)
  qed
qed

lemma cache_has_later: "\<not> cache_has t k c \<Longrightarrow> t \<le> t' \<Longrightarrow> \<not> cache_has t' k c"
  by (auto simp: cache_has_def is_stale_def split: option.splits)

lemma example_normal_form:
  "toLowerCase (trim '' Jain University '') = ''jain university''"
  "trim ''student-id-42'' = ''student-id-42''"
  by code_simp+

lemma example_key:
  "generateIdentityHash (JStr '' Jain University '') (JStr ''student-id-42'') =
     Inr (sha256_hex (stringify_object
            [(''issuer'', JStr ''jain university''), (''credential'', JStr ''student-id-42'')]))"
  by (simp add: generateIdentityHash_strings example_normal_form)

text \<open>
  C1.  The tiers a request consults are an initial part of the sequence volatile cache
  (tier 1), durable store (tier 2), compute (tier 3), for every request; a well-formed
  request (both fields truthy, the key derivable) starts by probing the cache for its key.
  When the key is in the volatile cache, not stale, and also in the durable store, with
  whatever row, the response is the cached value under the source tag \<open>0G_RAM_CACHE\<close>
  (the all-in-one server's name of the volatile cache tier): the store is neither queried
  nor changed, and the response is the same for every content of the store.
\<close>

theorem tier_order_and_cache_precedence:
  "prefix (tiers (snd (snd (check e issuer credential s)))) [1, 2, 3] \<and>
   (truthy issuer \<and> truthy credential \<and> generateIdentityHash issuer credential = Inr k \<longrightarrow>
      (\<exists>tr. snd (snd (check e issuer credential s)) = DeriveKey # CacheProbe k # tr)) \<and>
   (truthy issuer \<and> truthy credential \<and> generateIdentityHash issuer credential = Inr k \<and>
    map_of (entries (proofCache s)) k = Some (v, start) \<and>
    \<not> is_stale (proofCache s) (clock e) start \<and>
    identity_verifications s k = Some r \<longrightarrow>
      fst (check e issuer credential s) = Response 200 (with_source v ''0G_RAM_CACHE'') \<and>
      js_get (with_source v ''0G_RAM_CACHE'') ''source'' = Inr (JStr ''0G_RAM_CACHE'') \<and>
      (\<forall>ps name. v = JObj ps \<and> name \<noteq> ''source'' \<longrightarrow>
         js_get (with_source v ''0G_RAM_CACHE'') name = js_get v name) \<and>
      snd (snd (check e issuer credential s)) = [DeriveKey, CacheProbe k] \<and>
      identity_verifications (fst (snd (check e issuer credential s))) =
        identity_verifications s \<and>
      (\<forall>tbl. fst (check e issuer credential (s\<lparr>identity_verifications := tbl\<rparr>)) =
             fst (check e issuer credential s)))"
proof (intro conjI impI)
  show "prefix (tiers (snd (snd (check e issuer credential s)))) [1, 2, 3]"
    by (rule check_tiers)
next
  assume "truthy issuer \<and> truthy credential \<and> generateIdentityHash issuer credential = Inr k"
  then show "\<exists>tr. snd (snd (check e issuer credential s)) = DeriveKey # CacheProbe k # tr"
    using layers_probe_first [of e issuer credential k s]
    by (auto simp: check_layers split: prod.splits)
next
  assume a: "truthy issuer \<and> truthy credential \<and>
    generateIdentityHash issuer credential = Inr k \<and>
    map_of (entries (proofCache s)) k = Some (v, start) \<and>
    \<not> is_stale (proofCache s) (clock e) start \<and>
    identity_verifications s k = Some r"
  then have hit: "check e issuer credential s' =
           (Response 200 (with_source v ''0G_RAM_CACHE''),
            s'\<lparr>proofCache := (proofCache s')
               \<lparr>entries := remove_key k (entries (proofCache s')) @ [(k, v, start)]\<rparr>\<rparr>,
            [DeriveKey, CacheProbe k])" if "proofCache s' = proofCache s" for s'
    using that by (intro check_hit) simp_all
  show "fst (check e issuer credential s) = Response 200 (with_source v ''0G_RAM_CACHE'')"
    by (simp add: hit)
  show "snd (snd (check e issuer credential s)) = [DeriveKey, CacheProbe k]"
    by (simp add: hit)
  show "identity_verifications (fst (snd (check e issuer credential s))) =
        identity_verifications s"
    by (simp add: hit)
  show "\<forall>tbl. fst (check e issuer credential (s\<lparr>identity_verifications := tbl\<rparr>)) =
             fst (check e issuer credential s)"
    by (simp add: hit)
  show "js_get (with_source v ''0G_RAM_CACHE'') ''source'' = Inr (JStr ''0G_RAM_CACHE'')"
    by (rule with_source_source)
  show "\<forall>ps name. v = JObj ps \<and> name \<noteq> ''source'' \<longrightarrow>
         js_get (with_source v ''0G_RAM_CACHE'') name = js_get v name"
    by (auto simp: with_source_other)
qed


theorem tier_order_and_cache_precedence_witness:
  "truthy (JStr '' Jain University '') \<and> truthy (JStr ''student-id-42'') \<and>
   fst (check \<lparr>clock = 5000, clock_write = 6500, select_io = Ok, insert_io = Ok,
               random_hex = Some ''beef''\<rparr>
          (JStr '' Jain University '') (JStr ''student-id-42'')
          \<lparr>proofCache = \<lparr>max_entries = 5000, ttl_ms = CACHE_TTL,
             entries = [(sha256_hex (stringify_object
                [(''issuer'', JStr ''jain university''), (''credential'', JStr ''student-id-42'')]),
                newResult True ''0xaa'', 1000)]\<rparr>,
           identity_verifications =
             [sha256_hex (stringify_object
                [(''issuer'', JStr ''jain university''), (''credential'', JStr ''student-id-42'')])
              \<mapsto> \<lparr>r_issuer = JStr ''x'', r_credential = JStr ''y'', r_verified = False,
                   r_proof_signature = None, r_created_at = None\<rparr>]\<rparr>) =
     Response 200 (JObj [(''success'', JBool True), (''verified'', JBool True),
                         (''proof'', JStr ''0xaa''),
                         (''message'', JStr ''New Identity Verified & Cached''),
                         (''source'', JStr ''0G_RAM_CACHE'')])"
proof -
  let ?k = "sha256_hex (stringify_object
                [(''issuer'', JStr ''jain university''), (''credential'', JStr ''student-id-42'')])"
  let ?e = "\<lparr>clock = 5000, clock_write = 6500, select_io = Ok, insert_io = Ok,
               random_hex = Some ''beef''\<rparr>"
  let ?r = "\<lparr>r_issuer = JStr ''x'', r_credential = JStr ''y'', r_verified = False,
                   r_proof_signature = None, r_created_at = None\<rparr>"
  let ?s = "\<lparr>proofCache = \<lparr>max_entries = 5000, ttl_ms = CACHE_TTL,
             entries = [(?k, newResult True ''0xaa'', 1000)]\<rparr>,
           identity_verifications = [?k \<mapsto> ?r]\<rparr>"
  have h: "truthy (JStr '' Jain University '') \<and> truthy (JStr ''student-id-42'') \<and>
    generateIdentityHash (JStr '' Jain University '') (JStr ''student-id-42'') = Inr ?k \<and>
    map_of (entries (proofCache ?s)) ?k = Some (newResult True ''0xaa'', 1000) \<and>
    \<not> is_stale (proofCache ?s) (clock ?e) 1000 \<and>
    identity_verifications ?s ?k = Some ?r"
    by (simp add: example_key is_stale_def CACHE_TTL_def)
  from tier_order_and_cache_precedence
    [where e = ?e and issuer = "JStr '' Jain University ''"
       and credential = "JStr ''student-id-42''" and s = ?s and k = ?k
       and v = "newResult True ''0xaa''" and start = 1000 and r = ?r] h
  have "fst (check ?e (JStr '' Jain University '') (JStr ''student-id-42'') ?s) =
          Response 200 (with_source (newResult True ''0xaa'') ''0G_RAM_CACHE'')"
    by blast
  then show ?thesis by (simp add: with_source_def newResult_def)
qed




lemma layer3_outcome:
  "fst (layer3 e i c k s) = server_error \<or>
   (\<exists>h. fst (layer3 e i c k s) = Response 200 (with_source (newResult True h) ''NEW_COMPUTE''))"
  by (cases "random_hex e") (auto simp: layer3_throws layer3_ok)

lemma layer2_compute:
  assumes "Compute \<in> set (snd (snd (layer2 e i c k s)))"
  shows "fst (layer2 e i c k s) = fst (layer3 e i c k s)"
  using assms by (auto simp: layer2_def split: if_splits option.splits prod.splits)

lemma layers_compute:
  assumes "Compute \<in> set (snd (snd (layers e i c k s)))"
  shows "fst (layers e i c k s) = fst (layer3 e i c k s)"
  using assms layer2_compute [of e i c k s]
  by (auto simp: layers_def split: if_splits prod.splits)

lemma check_compute_outcome:
  assumes "Compute \<in> set (snd (snd (check e issuer credential s)))"
  shows "fst (check e issuer credential s) = server_error \<or>
   (\<exists>h. fst (check e issuer credential s) =
      Response 200 (with_source (newResult True h) ''NEW_COMPUTE''))"
proof (cases "truthy issuer \<and> truthy credential")
  case False
  with assms show ?thesis by (auto simp: check_invalid)
next
  case True
  show ?thesis
  proof (cases "generateIdentityHash issuer credential")
    case (Inl x)
    with True assms show ?thesis by (simp add: check_rejected)
  next
    case (Inr k)
    with True assms have "Compute \<in> set (snd (snd (layers e issuer credential k s)))"
      by (auto simp: check_layers split: prod.splits)
    from layers_compute [OF this] have "fst (check e issuer credential s) = fst (layer3 e issuer credential k s)"
      using True Inr by (auto simp: check_layers split: prod.splits)
    with layer3_outcome [of e issuer credential k s] show ?thesis by simp
  qed
qed

lemma newResult_verified: "js_get (with_source (newResult b h) src) ''verified'' = Inr (JBool b)"
  by (simp add: with_source_def newResult_def)

text \<open>
  C9.  In the all-in-one server a well-formed request that misses the volatile cache and
  the durable store, and whose proof is generated, is answered 200 with
  \<open>verified = true\<close> and source \<open>NEW_COMPUTE\<close>, whatever the issuer and the
  credential are; and every request that reaches the compute tier is answered either with
  the error envelope or with \<open>verified = true\<close>: none is reported unverified.
\<close>

theorem compute_tier_always_verifies:
  "(truthy issuer \<and> truthy credential \<and> generateIdentityHash issuer credential = Inr k \<and>
    \<not> cache_has (clock e) k (proofCache s) \<and> select_io e \<noteq> Throws \<and>
    select_single (select_io e) (identity_verifications s) k = None \<and>
    random_hex e = Some h \<longrightarrow>
      fst (check e issuer credential s) =
        Response 200 (with_source (newResult True (''0x'' @ h)) ''NEW_COMPUTE'')) \<and>
   (Compute \<in> set (snd (snd (check e issuer credential s))) \<longrightarrow>
      fst (check e issuer credential s) = server_error \<or>
      (\<exists>h'. fst (check e issuer credential s) =
              Response 200 (with_source (newResult True h') ''NEW_COMPUTE''))) \<and>
   js_get (with_source (newResult True h') ''NEW_COMPUTE'') ''verified'' = Inr (JBool True) \<and>
   js_get (with_source (newResult True h') ''NEW_COMPUTE'') ''source'' = Inr (JStr ''NEW_COMPUTE'')"
  using check_compute [of issuer credential k e s h] check_compute_outcome [of e issuer credential s]
  by (simp add: newResult_verified with_source_source)


theorem compute_tier_always_verifies_witness:
  "fst (check \<lparr>clock = 1000, clock_write = 2500, select_io = Ok, insert_io = Ok,
               random_hex = Some ''beef''\<rparr>
          (JStr ''no such issuer'') (JStr ''not a credential'') server_init) =
     Response 200 (JObj [(''success'', JBool True), (''verified'', JBool True),
                         (''proof'', JStr ''0xbeef''),
                         (''message'', JStr ''New Identity Verified & Cached''),
                         (''source'', JStr ''NEW_COMPUTE'')]) \<and>
   Compute \<in> set (snd (snd (check \<lparr>clock = 1000, clock_write = 2500, select_io = Ok,
               insert_io = Ok, random_hex = Some ''beef''\<rparr>
          (JStr ''no such issuer'') (JStr ''not a credential'') server_init)))"
proof -
  let ?k = "sha256_hex (stringify_object
              [(''issuer'', JStr (toLowerCase (trim ''no such issuer''))),
               (''credential'', JStr (trim ''not a credential''))])"
  let ?e = "\<lparr>clock = 1000, clock_write = 2500, select_io = Ok, insert_io = Ok,
               random_hex = Some ''beef''\<rparr>"
  have h: "truthy (JStr ''no such issuer'') \<and> truthy (JStr ''not a credential'') \<and>
    generateIdentityHash (JStr ''no such issuer'') (JStr ''not a credential'') = Inr ?k \<and>
    \<not> cache_has (clock ?e) ?k (proofCache server_init) \<and> select_io ?e \<noteq> Throws \<and>
    select_single (select_io ?e) (identity_verifications server_init) ?k = None \<and>
    random_hex ?e = Some ''beef''"
    by (simp add: generateIdentityHash_strings server_init_def LRUCache_def cache_has_def
        select_single_def)
  from compute_tier_always_verifies
    [where e = ?e and issuer = "JStr ''no such issuer''"
       and credential = "JStr ''not a credential''" and s = server_init and k = ?k
       and h = "''beef''"] h
  have r: "fst (check ?e (JStr ''no such issuer'') (JStr ''not a credential'') server_init) =
        Response 200 (with_source (newResult True (''0x'' @ ''beef'')) ''NEW_COMPUTE'')"
    by blast
  have "snd (snd (check ?e (JStr ''no such issuer'') (JStr ''not a credential'') server_init)) =
          [DeriveKey, CacheProbe ?k, StoreSelect ?k, Compute, StoreInsert ?k, CachePut ?k]"
    using h check_compute [of "JStr ''no such issuer''" "JStr ''not a credential''" ?k ?e
        server_init "''beef''"]
    by simp
  with r show ?thesis by (simp add: with_source_def newResult_def)
qed

section \<open>Properties of verifyWithSupabase.js and of failures\<close>

lemma verifyIdentity_invalid:
  "\<not> truthy issuer \<or> \<not> truthy credential \<Longrightarrow>
     verifyIdentity e issuer credential tbl =
       (Resolved (JObj [(''success'', JBool False),
          (''error'', JStr ''Invalid Input: 'issuer' and 'credential' are required.'')]),
        tbl, [])"
  by (auto simp: verifyIdentity_def)

lemma verifyIdentity_wired:
  assumes "truthy issuer" "truthy credential" "generateIdentityHash issuer credential = Inr k"
  shows "verifyIdentity e issuer credential tbl = (pipeline_failure, tbl, [DeriveKey])"
  using assms by (simp add: verifyIdentity_def supabase_def)

lemma verifyIdentity_cases:
  "verifyIdentity e issuer credential tbl =
     (Resolved (JObj [(''success'', JBool False),
        (''error'', JStr ''Invalid Input: 'issuer' and 'credential' are required.'')]),
      tbl, []) \<or>
   (\<exists>err. verifyIdentity e issuer credential tbl = (Rejected err, tbl, [])) \<or>
   verifyIdentity e issuer credential tbl = (pipeline_failure, tbl, [DeriveKey])"
proof (cases "truthy issuer \<and> truthy credential")
  case False
  then show ?thesis by (auto simp: verifyIdentity_invalid)
next
  case True
  show ?thesis
  proof (cases "generateIdentityHash issuer credential")
    case (Inl err)
    with True show ?thesis by (simp add: verifyIdentity_def)
  next
    case (Inr k)
    with True show ?thesis by (simp add: verifyIdentity_wired)
  qed
qed

lemma verifyIdentity_store_untouched:
  "fst (snd (verifyIdentity e issuer credential tbl)) = tbl"
  using verifyIdentity_cases [of e issuer credential tbl] by auto

text \<open>As wired, no call of verifyWithSupabase.js reaches its store or its compute step.\<close>

lemma verifyIdentity_never_computes:
  "set (snd (snd (verifyIdentity e issuer credential tbl))) \<subseteq> {DeriveKey}"
  using verifyIdentity_cases [of e issuer credential tbl] by auto



text \<open>
  C5.  A request that ends in the internal-error envelope (\<open>500 Verification Failed\<close>
  in the all-in-one server, \<open>success = false\<close> with the internal-server-error message
  in verifyWithSupabase.js) leaves the volatile cache and the durable store as they were.
  It ends so whenever the store's select throws, or the compute tier's proof generation
  throws (in verifyWithSupabase.js also when the awaited insert throws).  A repeat request
  for the same key, with the oracle working again, runs the compute tier again and is
  answered from it.  (As wired, verifyWithSupabase.js ends in its error envelope for every
  well-formed request, its first call on \<open>supabase\<close> throwing inside the try block.)
\<close>

theorem failed_request_leaves_tiers_unchanged:
  "(fst (check e issuer credential s) = server_error \<longrightarrow>
      fst (snd (check e issuer credential s)) = s) \<and>
   (truthy issuer \<and> truthy credential \<and> generateIdentityHash issuer credential = Inr k \<and>
    \<not> cache_has (clock e) k (proofCache s) \<and>
    (select_io e = Throws \<or>
     select_single (select_io e) (identity_verifications s) k = None \<and> random_hex e = None) \<longrightarrow>
      fst (check e issuer credential s) = server_error \<and>
      fst (snd (check e issuer credential s)) = s \<and>
      server_error = Response 500 (JObj [(''error'', JStr ''Verification Failed'')])) \<and>
   (truthy issuer \<and> truthy credential \<and> generateIdentityHash issuer credential = Inr k \<and>
    \<not> cache_has (clock e) k (proofCache s) \<and> select_io e \<noteq> Throws \<and>
    identity_verifications s k = None \<and> random_hex e = None \<and>
    clock e \<le> clock e2 \<and> select_io e2 \<noteq> Throws \<and> random_hex e2 = Some h \<longrightarrow>
      fst (check e2 issuer credential (fst (snd (check e issuer credential s)))) =
        Response 200 (with_source (newResult True (''0x'' @ h)) ''NEW_COMPUTE'') \<and>
      Compute \<in> set (snd (snd (check e2 issuer credential
                                    (fst (snd (check e issuer credential s))))))) \<and>
   (fst (verifyIdentity e issuer credential tbl) = pipeline_failure \<longrightarrow>
      fst (snd (verifyIdentity e issuer credential tbl)) = tbl) \<and>
   (i \<noteq> [] \<and> c \<noteq> [] \<and> generateIdentityHash (JStr i) (JStr c) = Inr k \<and>
    (select_io e = Throws \<or>
     select_single (select_io e) tbl k = None \<and>
     (insert_io e = Throws \<or>
      random_hex e = None \<and> toLowerCase i = ''jain university'' \<and>
      str_includes (toLowerCase c) ''student'')) \<longrightarrow>
      fst (verifyIdentity e (JStr i) (JStr c) tbl) = pipeline_failure \<and>
      fst (snd (verifyIdentity e (JStr i) (JStr c) tbl)) = tbl)"
proof (intro conjI impI)
  assume "fst (check e issuer credential s) = server_error"
  then show "fst (snd (check e issuer credential s)) = s" by (rule check_error_unchanged)
next
  assume a: "truthy issuer \<and> truthy credential \<and>
    generateIdentityHash issuer credential = Inr k \<and>
    \<not> cache_has (clock e) k (proofCache s) \<and>
    (select_io e = Throws \<or>
     select_single (select_io e) (identity_verifications s) k = None \<and> random_hex e = None)"
  then have "check e issuer credential s = (server_error, s, [DeriveKey, CacheProbe k, StoreSelect k])
     \<or> check e issuer credential s = (server_error, s, [DeriveKey, CacheProbe k, StoreSelect k, Compute])"
    using check_select_throws [of issuer credential k e s]
      check_compute_throws [of issuer credential k e s]
    by blast
  then show "fst (check e issuer credential s) = server_error"
    and "fst (snd (check e issuer credential s)) = s"
    by auto
next
  show "server_error = Response 500 (JObj [(''error'', JStr ''Verification Failed'')])"
    by (simp add: server_error_def)
next
  assume a: "truthy issuer \<and> truthy credential \<and>
    generateIdentityHash issuer credential = Inr k \<and>
    \<not> cache_has (clock e) k (proofCache s) \<and> select_io e \<noteq> Throws \<and>
    identity_verifications s k = None \<and> random_hex e = None \<and>
    clock e \<le> clock e2 \<and> select_io e2 \<noteq> Throws \<and> random_hex e2 = Some h"
  then have first: "check e issuer credential s =
      (server_error, s, [DeriveKey, CacheProbe k, StoreSelect k, Compute])"
    by (intro check_compute_throws) (simp_all add: select_single_def)
  from a have miss2: "\<not> cache_has (clock e2) k (proofCache s)"
    using cache_has_later by blast
  with a have second: "check e2 issuer credential s =
           (Response 200 (with_source (newResult True (''0x'' @ h)) ''NEW_COMPUTE''),
            s\<lparr>identity_verifications :=
                 fst (db_insert (insert_io e2) (identity_verifications s) k
                   \<lparr>r_issuer = issuer, r_credential = credential, r_verified = True,
                    r_proof_signature = Some (''0x'' @ h), r_created_at = None\<rparr>),
              proofCache := cache_set (clock_write e2) k (newResult True (''0x'' @ h))
                              (proofCache s)\<rparr>,
            [DeriveKey, CacheProbe k, StoreSelect k, Compute, StoreInsert k, CachePut k])"
    by (intro check_compute) (simp_all add: select_single_def)
  show "fst (check e2 issuer credential (fst (snd (check e issuer credential s)))) =
        Response 200 (with_source (newResult True (''0x'' @ h)) ''NEW_COMPUTE'')"
    by (simp add: first second)
  show "Compute \<in> set (snd (snd (check e2 issuer credential
                                    (fst (snd (check e issuer credential s))))))"
    by (simp add: first second)
next
  show "fst (snd (verifyIdentity e issuer credential tbl)) = tbl"
    by (rule verifyIdentity_store_untouched)
next
  assume a: "i \<noteq> [] \<and> c \<noteq> [] \<and> generateIdentityHash (JStr i) (JStr c) = Inr k \<and>
    (select_io e = Throws \<or>
     select_single (select_io e) tbl k = None \<and>
     (insert_io e = Throws \<or>
      random_hex e = None \<and> toLowerCase i = ''jain university'' \<and>
      str_includes (toLowerCase c) ''student''))"
  then show "fst (verifyIdentity e (JStr i) (JStr c) tbl) = pipeline_failure"
    by (simp add: verifyIdentity_wired)
  show "fst (snd (verifyIdentity e (JStr i) (JStr c) tbl)) = tbl"
    by (rule verifyIdentity_store_untouched)
qed

theorem failed_request_leaves_tiers_unchanged_witness:
  "fst (check \<lparr>clock = 1000, clock_write = 2500, select_io = Ok, insert_io = Ok,
               random_hex = None\<rparr>
          (JStr '' Jain University '') (JStr ''student-id-42'') server_init) =
     Response 500 (JObj [(''error'', JStr ''Verification Failed'')]) \<and>
   fst (snd (check \<lparr>clock = 1000, clock_write = 2500, select_io = Ok, insert_io = Ok,
               random_hex = None\<rparr>
          (JStr '' Jain University '') (JStr ''student-id-42'') server_init)) = server_init \<and>
   fst (check \<lparr>clock = 4000, clock_write = 5500, select_io = Ok, insert_io = Ok,
               random_hex = Some ''beef''\<rparr>
          (JStr '' Jain University '') (JStr ''student-id-42'')
          (fst (snd (check \<lparr>clock = 1000, clock_write = 2500, select_io = Ok, insert_io = Ok,
               random_hex = None\<rparr>
          (JStr '' Jain University '') (JStr ''student-id-42'') server_init)))) =
     Response 200 (JObj [(''success'', JBool True), (''verified'', JBool True),
                         (''proof'', JStr ''0xbeef''),
                         (''message'', JStr ''New Identity Verified & Cached''),
                         (''source'', JStr ''NEW_COMPUTE'')]) \<and>
   fst (verifyIdentity \<lparr>clock = 1000, clock_write = 2500, select_io = Throws, insert_io = Ok,
               random_hex = Some ''beef''\<rparr>
          (JStr '' Jain University '') (JStr ''student-id-42'') Map.empty) =
     Resolved (JObj [(''success'', JBool False),
                     (''message'', JStr ''Internal Server Error during verification pipeline.'')]) \<and>
   fst (snd (verifyIdentity \<lparr>clock = 1000, clock_write = 2500, select_io = Throws,
               insert_io = Ok, random_hex = Some ''beef''\<rparr>
          (JStr '' Jain University '') (JStr ''student-id-42'') Map.empty)) = Map.empty"
proof -
  let ?k = "sha256_hex (stringify_object
        [(''issuer'', JStr ''jain university''), (''credential'', JStr ''student-id-42'')])"
  let ?e1 = "\<lparr>clock = 1000, clock_write = 2500, select_io = Ok, insert_io = Ok,
               random_hex = None\<rparr>"
  let ?e2 = "\<lparr>clock = 4000, clock_write = 5500, select_io = Ok, insert_io = Ok,
               random_hex = Some ''beef''\<rparr>"
  let ?e3 = "\<lparr>clock = 1000, clock_write = 2500, select_io = Throws, insert_io = Ok,
               random_hex = Some ''beef''\<rparr>"
  let ?i = "'' Jain University ''" and ?c = "''student-id-42''"
  have h1: "truthy (JStr ?i) \<and> truthy (JStr ?c) \<and>
    generateIdentityHash (JStr ?i) (JStr ?c) = Inr ?k \<and>
    \<not> cache_has (clock ?e1) ?k (proofCache server_init) \<and>
    (select_io ?e1 = Throws \<or>
     select_single (select_io ?e1) (identity_verifications server_init) ?k = None \<and>
     random_hex ?e1 = None)"
    by (simp add: example_key server_init_def LRUCache_def cache_has_def select_single_def)
  have h2: "truthy (JStr ?i) \<and> truthy (JStr ?c) \<and>
    generateIdentityHash (JStr ?i) (JStr ?c) = Inr ?k \<and>
    \<not> cache_has (clock ?e1) ?k (proofCache server_init) \<and> select_io ?e1 \<noteq> Throws \<and>
    identity_verifications server_init ?k = None \<and> random_hex ?e1 = None \<and>
    clock ?e1 \<le> clock ?e2 \<and> select_io ?e2 \<noteq> Throws \<and> random_hex ?e2 = Some ''beef''"
    by (simp add: example_key server_init_def LRUCache_def cache_has_def)
  have h3: "?i \<noteq> [] \<and> ?c \<noteq> [] \<and> generateIdentityHash (JStr ?i) (JStr ?c) = Inr ?k \<and>
    (select_io ?e3 = Throws \<or>
     select_single (select_io ?e3) Map.empty ?k = None \<and>
     (insert_io ?e3 = Throws \<or>
      random_hex ?e3 = None \<and> toLowerCase ?i = ''jain university'' \<and>
      str_includes (toLowerCase ?c) ''student''))"
    by (simp add: example_key)
  note T1 = failed_request_leaves_tiers_unchanged
    [where e = ?e1 and ?e2.0 = ?e2 and issuer = "JStr ?i" and credential = "JStr ?c"
       and s = server_init and k = ?k and h = "''beef''"]
  note T3 = failed_request_leaves_tiers_unchanged
    [where e = ?e3 and i = ?i and c = ?c and k = ?k and tbl = Map.empty]
  from T1 h1 have
    "fst (check ?e1 (JStr ?i) (JStr ?c) server_init) = server_error"
    "fst (snd (check ?e1 (JStr ?i) (JStr ?c) server_init)) = server_init"
    by blast+
  moreover from T1 h2 have
    "fst (check ?e2 (JStr ?i) (JStr ?c) (fst (snd (check ?e1 (JStr ?i) (JStr ?c) server_init)))) =
       Response 200 (with_source (newResult True (''0x'' @ ''beef'')) ''NEW_COMPUTE'')"
    by blast
  moreover from T3 h3 have
    "fst (verifyIdentity ?e3 (JStr ?i) (JStr ?c) Map.empty) = pipeline_failure"
    "fst (snd (verifyIdentity ?e3 (JStr ?i) (JStr ?c) Map.empty)) = Map.empty"
    by blast+
  ultimately show ?thesis
    by (simp add: with_source_def newResult_def server_error_def pipeline_failure_def)
qed

section \<open>Expiry in the persistence layer\<close>

lemma gt_expires_at_expired:
  "tbl k = Some r \<Longrightarrow> expires_at r \<le> now \<Longrightarrow> gt_expires_at now tbl k = None"
  by (simp add: gt_expires_at_def)

lemma gt_expires_at_absent: "gt_expires_at now (tbl(k := None)) k = None"
  by (simp add: gt_expires_at_def)

lemma persistence_miss:
  assumes "generateFingerprint issuer credential = Inr k"
    and "select_io e \<noteq> Throws"
    and "select_single (select_io e) (gt_expires_at (clock e) tbl) k = None"
  shows "verifyIdentity_persistence e issuer credential tbl =
    (case performHeavyVerification e issuer credential of
       Inl err \<Rightarrow> (Uncaught err, tbl, [DeriveKey, StoreSelect k, Compute])
     | Inr vr \<Rightarrow>
         if insert_io e = Throws
         then (Settled identity_pipeline_failure, tbl,
               [DeriveKey, StoreSelect k, Compute, StoreInsert k])
         else
           (Settled (Resolved (JObj
              [(''success'', JBool True), (''verified'', JBool (isValid vr)),
               (''trustScore'', JNum (score vr)), (''source'', JStr ''NEW_COMPUTE''),
               (''proof'', proof_val vr), (''latency'', JStr ''High (Processed)'')])),
            fst (db_insert (insert_io e) tbl k
              \<lparr>is_valid = isValid vr, trust_score = score vr, proof_data = proof_val vr,
               expires_at = clock_write e + 1000 * 60 * 60 * 24\<rparr>),
            [DeriveKey, StoreSelect k, Compute, StoreInsert k]))"
  using assms by (simp add: verifyIdentity_persistence_def)

lemma persistence_select_throws:
  assumes "generateFingerprint issuer credential = Inr k" and "select_io e = Throws"
  shows "verifyIdentity_persistence e issuer credential tbl =
           (Settled identity_pipeline_failure, tbl, [DeriveKey, StoreSelect k])"
  using assms by (simp add: verifyIdentity_persistence_def)

lemma persistence_miss_outcome:
  assumes "generateFingerprint issuer credential = Inr k"
    and "select_single (select_io e) (gt_expires_at (clock e) tbl) k = None"
    and "select_single (select_io e) (gt_expires_at (clock e) tbl') k = None"
  shows "fst (verifyIdentity_persistence e issuer credential tbl) =
           fst (verifyIdentity_persistence e issuer credential tbl') \<and>
         snd (snd (verifyIdentity_persistence e issuer credential tbl)) =
           snd (snd (verifyIdentity_persistence e issuer credential tbl'))"
proof (cases "select_io e = Throws")
  case True
  with assms(1) show ?thesis by (simp add: persistence_select_throws)
next
  case False
  with assms show ?thesis
    by (simp add: persistence_miss split: sum.splits)
qed

lemma persistence_miss_source:
  assumes "generateFingerprint issuer credential = Inr k"
    and "select_single (select_io e) (gt_expires_at (clock e) tbl) k = None"
    and "fst (verifyIdentity_persistence e issuer credential tbl) = Settled (Resolved body)"
  shows "js_get body ''source'' \<noteq> Inr (JStr ''PERSISTENT_CACHE'')"
proof (cases "select_io e = Throws")
  case True
  with assms show ?thesis
    by (auto simp: persistence_select_throws identity_pipeline_failure_def)
next
  case False
  with assms show ?thesis
    by (auto simp: persistence_miss identity_pipeline_failure_def split: sum.splits if_splits)
qed

lemma persistence_miss_compute:
  assumes "generateFingerprint issuer credential = Inr k"
    and "select_io e \<noteq> Throws"
    and "select_single (select_io e) (gt_expires_at (clock e) tbl) k = None"
  shows "Compute \<in> set (snd (snd (verifyIdentity_persistence e issuer credential tbl)))"
  using assms by (simp add: persistence_miss split: sum.splits)

text \<open>
  C3.  In the persistence layer (the pipeline whose table carries \<open>expires_at\<close>) a record
  whose expiry is not after the time of the lookup is treated as absent: the outcome of the
  request and what it touches are those of the same request on the table without the
  record; no answer comes from the store (none has source \<open>PERSISTENT_CACHE\<close>); and
  unless the select throws, the pipeline goes on to the compute tier and, when that
  succeeds, answers with the freshly computed result, source \<open>NEW_COMPUTE\<close>.
\<close>

theorem expired_record_is_absent:
  assumes "generateFingerprint issuer credential = Inr k"
    and "tbl k = Some r"
    and "expires_at r \<le> clock e"
  shows "fst (verifyIdentity_persistence e issuer credential tbl) =
           fst (verifyIdentity_persistence e issuer credential (tbl(k := None))) \<and>
         snd (snd (verifyIdentity_persistence e issuer credential tbl)) =
           snd (snd (verifyIdentity_persistence e issuer credential (tbl(k := None)))) \<and>
         (\<forall>body. fst (verifyIdentity_persistence e issuer credential tbl) =
                   Settled (Resolved body) \<longrightarrow>
                 js_get body ''source'' \<noteq> Inr (JStr ''PERSISTENT_CACHE'')) \<and>
         (select_io e \<noteq> Throws \<longrightarrow>
            Compute \<in> set (snd (snd (verifyIdentity_persistence e issuer credential tbl)))) \<and>
         (select_io e \<noteq> Throws \<and> insert_io e \<noteq> Throws \<and>
          performHeavyVerification e issuer credential = Inr vr \<longrightarrow>
            fst (verifyIdentity_persistence e issuer credential tbl) =
              Settled (Resolved (JObj
                [(''success'', JBool True), (''verified'', JBool (isValid vr)),
                 (''trustScore'', JNum (score vr)), (''source'', JStr ''NEW_COMPUTE''),
                 (''proof'', proof_val vr), (''latency'', JStr ''High (Processed)'')])))"
proof -
  have m: "select_single (select_io e) (gt_expires_at (clock e) tbl) k = None"
    using assms(2,3) by (simp add: select_single_def gt_expires_at_expired)
  have m': "select_single (select_io e) (gt_expires_at (clock e) (tbl(k := None))) k = None"
    by (simp add: select_single_def gt_expires_at_absent)
  note persistence_miss_outcome [OF assms(1) m m']
  moreover have "\<forall>body. fst (verifyIdentity_persistence e issuer credential tbl) =
                   Settled (Resolved body) \<longrightarrow>
                 js_get body ''source'' \<noteq> Inr (JStr ''PERSISTENT_CACHE'')"
    using persistence_miss_source [OF assms(1) m] by blast
  moreover have "select_io e \<noteq> Throws \<longrightarrow>
            Compute \<in> set (snd (snd (verifyIdentity_persistence e issuer credential tbl)))"
    using persistence_miss_compute [OF assms(1) _ m] by blast
  moreover have "select_io e \<noteq> Throws \<and> insert_io e \<noteq> Throws \<and>
          performHeavyVerification e issuer credential = Inr vr \<longrightarrow>
            fst (verifyIdentity_persistence e issuer credential tbl) =
              Settled (Resolved (JObj
                [(''success'', JBool True), (''verified'', JBool (isValid vr)),
                 (''trustScore'', JNum (score vr)), (''source'', JStr ''NEW_COMPUTE''),
                 (''proof'', proof_val vr), (''latency'', JStr ''High (Processed)'')]))"
    using persistence_miss [OF assms(1) _ m] by simp
  ultimately show ?thesis by blast
qed

theorem expired_record_is_absent_witness:
  "fst (verifyIdentity_persistence
          \<lparr>clock = 90000000, clock_write = 90001500, select_io = Ok, insert_io = Ok,
           random_hex = Some ''c0ffee''\<rparr>
          (JStr ''did:ethr:0x1'') (JObj [(''id'', JStr ''vc-1'')])
          [sha256_hex (stringify_object
             [(''issuer'', JStr ''did:ethr:0x1''), (''credentialId'', JStr ''vc-1'')])
           \<mapsto> \<lparr>is_valid = False, trust_score = 10, proof_data = JNull,
                expires_at = 86400000\<rparr>]) =
     Settled (Resolved (JObj
        [(''success'', JBool True), (''verified'', JBool True), (''trustScore'', JNum 99),
         (''source'', JStr ''NEW_COMPUTE''),
         (''proof'', JObj [(''method'', JStr ''zk-snark''), (''timestamp'', JNum 90001500),
                           (''signature'', JStr ''c0ffee'')]),
         (''latency'', JStr ''High (Processed)'')]))"
proof -
  let ?k = "sha256_hex (stringify_object
             [(''issuer'', JStr ''did:ethr:0x1''), (''credentialId'', JStr ''vc-1'')])"
  let ?e = "\<lparr>clock = 90000000, clock_write = 90001500, select_io = Ok, insert_io = Ok,
           random_hex = Some ''c0ffee''\<rparr>"
  let ?r = "\<lparr>is_valid = False, trust_score = 10, proof_data = JNull, expires_at = 86400000\<rparr>"
  let ?vr = "\<lparr>isValid = True, score = 99,
              proof_val = JObj [(''method'', JStr ''zk-snark''), (''timestamp'', JNum 90001500),
                           (''signature'', JStr ''c0ffee'')]\<rparr>"
  have h: "generateFingerprint (JStr ''did:ethr:0x1'') (JObj [(''id'', JStr ''vc-1'')]) = Inr ?k"
    "[?k \<mapsto> ?r] ?k = Some ?r" "expires_at ?r \<le> clock ?e"
    by (simp_all add: generateFingerprint_def)
  have c: "select_io ?e \<noteq> Throws \<and> insert_io ?e \<noteq> Throws \<and>
      performHeavyVerification ?e (JStr ''did:ethr:0x1'') (JObj [(''id'', JStr ''vc-1'')]) = Inr ?vr"
    by (simp add: performHeavyVerification_def)
  from expired_record_is_absent
    [where e = ?e and issuer = "JStr ''did:ethr:0x1''"
       and credential = "JObj [(''id'', JStr ''vc-1'')]" and k = ?k and tbl = "[?k \<mapsto> ?r]"
       and r = ?r and vr = ?vr, OF h] c
  have "fst (verifyIdentity_persistence ?e (JStr ''did:ethr:0x1'')
               (JObj [(''id'', JStr ''vc-1'')]) [?k \<mapsto> ?r]) =
          Settled (Resolved (JObj
                [(''success'', JBool True), (''verified'', JBool (isValid ?vr)),
                 (''trustScore'', JNum (score ?vr)), (''source'', JStr ''NEW_COMPUTE''),
                 (''proof'', proof_val ?vr), (''latency'', JStr ''High (Processed)'')]))"
    by blast
  then show ?thesis by simp
qed

section \<open>Validation and normalisation\<close>

lemma validation_fails_fast:
  assumes "\<not> truthy issuer \<or> \<not> truthy credential"
  shows "check e issuer credential s =
           (Response 400 (JObj [(''error'', JStr ''Missing issuer or credential'')]), s, [])"
    and "verifyIdentity e issuer credential tbl =
           (Resolved (JObj [(''success'', JBool False),
              (''error'', JStr ''Invalid Input: 'issuer' and 'credential' are required.'')]),
            tbl, [])"
    and "generateRequestHash issuer credential =
           Inl (400, JObj [(''error'', JStr ''Missing issuer or credential data'')])"
  using assms by (auto simp: check_invalid verifyIdentity_invalid generateRequestHash_def)

text \<open>
  C6.  The all-in-one server, verifyWithSupabase.js and the core node's middleware reject
  a request with a falsy issuer or credential before anything is hashed or touched
  (\<open>validation_fails_fast\<close>).  The persistence layer's \<open>verifyIdentity\<close> has no such
  check: called with the empty issuer and the credential \<open>{ id: "abc" }\<close> it derives a
  fingerprint, queries the store, runs the verification and stores the result.
\<close>

theorem persistence_layer_skips_validation:
  "\<not> truthy (JStr '''') \<and>
   verifyIdentity_persistence
     \<lparr>clock = 1000, clock_write = 2500, select_io = Ok, insert_io = Ok,
      random_hex = Some ''c0ffee''\<rparr>
     (JStr '''') (JObj [(''id'', JStr ''abc'')]) Map.empty =
   (Settled (Resolved (JObj
      [(''success'', JBool True), (''verified'', JBool False), (''trustScore'', JNum 10),
       (''source'', JStr ''NEW_COMPUTE''),
       (''proof'', JObj [(''method'', JStr ''zk-snark''), (''timestamp'', JNum 2500),
                         (''signature'', JStr ''c0ffee'')]),
       (''latency'', JStr ''High (Processed)'')])),
    [sha256_hex (stringify_object [(''issuer'', JStr ''''), (''credentialId'', JStr ''abc'')])
     \<mapsto> \<lparr>is_valid = False, trust_score = 10,
          proof_data = JObj [(''method'', JStr ''zk-snark''), (''timestamp'', JNum 2500),
                             (''signature'', JStr ''c0ffee'')],
          expires_at = 86402500\<rparr>],
    [DeriveKey,
     StoreSelect (sha256_hex (stringify_object
                    [(''issuer'', JStr ''''), (''credentialId'', JStr ''abc'')])),
     Compute,
     StoreInsert (sha256_hex (stringify_object
                    [(''issuer'', JStr ''''), (''credentialId'', JStr ''abc'')]))])"
  by (simp add: verifyIdentity_persistence_def generateFingerprint_def select_single_def
      gt_expires_at_def performHeavyVerification_def db_insert_def)

lemma example_case: "toLowerCase ''Jain University'' = toLowerCase ''jain UNIVERSITY''"
  by code_simp

text \<open>
  C7, as amended.  \<open>generateIdentityHash\<close> (verifyWithSupabase.js and index.js) is a
  function of the normalised pair: two string inputs whose issuers agree after trimming and
  lower-casing and whose credentials agree after trimming get the same key; in particular
  whitespace around the issuer or the credential and the letter case of the issuer make no
  difference.  (A function of its arguments, it yields the same key when called twice.)
  \<open>generateRequestHash\<close> of the core node hashes the fields as received and is not part
  of this statement.
\<close>

theorem identity_hash_normalized:
  "(toLowerCase (trim i) = toLowerCase (trim i') \<and> trim c = trim c' \<longrightarrow>
      generateIdentityHash (JStr i) (JStr c) = generateIdentityHash (JStr i') (JStr c')) \<and>
   (list_all is_ws a \<and> list_all is_ws b \<and> list_all is_ws a' \<and> list_all is_ws b' \<and>
    toLowerCase i = toLowerCase i' \<longrightarrow>
      generateIdentityHash (JStr (a @ i @ b)) (JStr (a' @ c @ b')) =
      generateIdentityHash (JStr i') (JStr c))"
proof -
  have "toLowerCase (trim (a @ i @ b)) = toLowerCase (trim i')"
    if "list_all is_ws a" "list_all is_ws b" "toLowerCase i = toLowerCase i'"
    using that by (simp add: trim_pad toLowerCase_trim)
  then show ?thesis by (auto simp: generateIdentityHash_strings trim_pad)
qed

theorem identity_hash_normalized_witness:
  "generateIdentityHash (JStr ''  Jain University '') (JStr '' student-id-42  '') =
   generateIdentityHash (JStr ''jain UNIVERSITY'') (JStr ''student-id-42'')"
proof -
  have h: "list_all is_ws ''  '' \<and> list_all is_ws '' '' \<and> list_all is_ws '' '' \<and>
    list_all is_ws ''  '' \<and> toLowerCase ''Jain University'' = toLowerCase ''jain UNIVERSITY''"
    by (simp add: is_ws_def example_case)
  from identity_hash_normalized
    [where a = "''  ''" and b = "'' ''" and a' = "'' ''" and b' = "''  ''"
       and i = "''Jain University''" and i' = "''jain UNIVERSITY''" and c = "''student-id-42''"] h
  show ?thesis by simp
qed

lemma request_hash_upper_case:
  "generateRequestHash (JStr ''A'') (JStr ''x'') =
     Inr ''89f0e357bc86f38756980318d0acb4d6d137fe30e1c30791d263fdba522cc6ca''"
  by code_simp

lemma request_hash_lower_case:
  "generateRequestHash (JStr ''a'') (JStr ''x'') =
     Inr ''0fa3a0a5e081f39a58b650a84ecaa1f59791796f74621359e157a686977b3273''"
  by code_simp

lemma upper_lower_normalised: "toLowerCase (trim ''A'') = toLowerCase (trim ''a'')"
  by code_simp

text \<open>
  The claim C7 as stated fails for the core node: \<open>generateRequestHash\<close> gives the
  issuers \<open>A\<close> and \<open>a\<close>, equal after normalisation, the SHA-256 digests of
  \<open>{"issuer":"A","credential":"x"}\<close> and of \<open>{"issuer":"a","credential":"x"}\<close>,
  which differ.
\<close>

theorem request_hash_not_normalized:
  "toLowerCase (trim ''A'') = toLowerCase (trim ''a'') \<and>
   generateRequestHash (JStr ''A'') (JStr ''x'') \<noteq> generateRequestHash (JStr ''a'') (JStr ''x'')"
  by (simp add: request_hash_upper_case request_hash_lower_case upper_lower_normalised)

end
